theory Spec2Isabelle
  imports Complex_Main "HOL-Library.Log_Nat"
begin

section \<open>JavaScript values\<close>

text \<open>
  The program is JavaScript. Its numbers are modelled as integers together with \<open>NaN\<close>
  (minute counts, list lengths and calendar fields are integral; sums and differences of
  integers below \<open>2 ^ 53\<close> are exact in double precision and are taken exact here).
  Quotients and products that leave the integers are rounded to double precision by
  \<open>fl\<close> below.
\<close>

datatype number = Num int | NaN

fun num_add :: "number \<Rightarrow> number \<Rightarrow> number" where
  "num_add (Num a) (Num b) = Num (a + b)"
| "num_add _ _ = NaN"

fun num_sub :: "number \<Rightarrow> number \<Rightarrow> number" where
  "num_sub (Num a) (Num b) = Num (a - b)"
| "num_sub _ _ = NaN"

fun num_mul :: "number \<Rightarrow> number \<Rightarrow> number" where
  "num_mul (Num a) (Num b) = Num (a * b)"
| "num_mul _ _ = NaN"

text \<open>\<open>Math.max(0, x)\<close>: \<open>NaN\<close> if \<open>x\<close> is.\<close>

fun Math_max0 :: "number \<Rightarrow> number" where
  "Math_max0 (Num a) = Num (max 0 a)"
| "Math_max0 NaN = NaN"

text \<open>\<open>x > 0\<close>: false on \<open>NaN\<close>.\<close>

fun num_gt0 :: "number \<Rightarrow> bool" where
  "num_gt0 (Num a) = (0 < a)"
| "num_gt0 NaN = False"

subsection \<open>Double precision\<close>

text \<open>
  \<open>fl x\<close> is the double nearest to the rational \<open>x\<close> (53 significant bits, ties to
  even). Overflow and subnormal numbers are not modelled: the program divides and
  multiplies counts only.
\<close>

definition pow2 :: "int \<Rightarrow> rat" where
  "pow2 e = (if 0 \<le> e then 2 ^ nat e else 1 / 2 ^ nat (- e))"

text \<open>The exponent \<open>e\<close> with \<open>2 ^ e \<le> x < 2 ^ (e + 1)\<close>, for \<open>x > 0\<close>.\<close>

definition binade :: "rat \<Rightarrow> int" where
  "binade x = (let (a, b) = quotient_of x; e0 = bitlen a - bitlen b
               in if pow2 e0 \<le> x then e0 else e0 - 1)"

definition round_half_even :: "rat \<Rightarrow> int" where
  "round_half_even m = (let f = \<lfloor>m\<rfloor>; r = m - of_int f in
     if r < 1 / 2 then f else if 1 / 2 < r then f + 1 else if even f then f else f + 1)"

definition fl :: "rat \<Rightarrow> rat" where
  "fl x = (if x = 0 then 0 else
     let u = pow2 (binade \<bar>x\<bar> - 52)
     in sgn x * of_int (round_half_even (\<bar>x\<bar> / u)) * u)"

text \<open>\<open>Math.round\<close>: the nearest integer, a tie going towards \<open>+\<infinity>\<close>.\<close>

definition Math_round :: "rat \<Rightarrow> int" where
  "Math_round x = \<lfloor>x + 1 / 2\<rfloor>"

text \<open>\<open>Math.round(total / n)\<close> for a number \<open>total\<close> and a positive count \<open>n\<close>.\<close>

fun round_quotient :: "number \<Rightarrow> nat \<Rightarrow> number" where
  "round_quotient (Num p) n = Num (Math_round (fl (of_int p / of_nat n)))"
| "round_quotient NaN n = NaN"

text \<open>\<open>Math.round((t / n) * 100)\<close> for counts \<open>t\<close> and \<open>n > 0\<close>.\<close>

definition round_percent :: "nat \<Rightarrow> nat \<Rightarrow> number" where
  "round_percent t n = Num (Math_round (fl (fl (of_nat t / of_nat n) * 100)))"

subsection \<open>Strings\<close>

text \<open>
  Strings are compared by code unit, as \<open><=\<close> and \<open>>=\<close> do in JavaScript. The
  dates and times of the program are ASCII.
\<close>

fun str_le :: "string \<Rightarrow> string \<Rightarrow> bool" where
  "str_le [] ys = True"
| "str_le (x # xs) [] = False"
| "str_le (x # xs) (y # ys) =
     (if x = y then str_le xs ys else (of_char x :: nat) < of_char y)"

definition str_ge :: "string \<Rightarrow> string \<Rightarrow> bool" where
  "str_ge a b = str_le b a"

definition startsWith :: "string \<Rightarrow> string \<Rightarrow> bool" where
  "startsWith s p = (take (length p) s = p)"

text \<open>\<open>s.replace(pat, rep)\<close> with a string pattern: the first occurrence only.\<close>

fun replace_first :: "string \<Rightarrow> string \<Rightarrow> string \<Rightarrow> string" where
  "replace_first pat rep [] = (if pat = [] then rep else [])"
| "replace_first pat rep (c # cs) =
     (if startsWith (c # cs) pat then rep @ drop (length pat) (c # cs)
      else c # replace_first pat rep cs)"

text \<open>\<open>s.split(sep)\<close> with a one-character separator.\<close>

fun split :: "char \<Rightarrow> string \<Rightarrow> string list" where
  "split sep [] = [[]]"
| "split sep (c # cs) =
     (if c = sep then [] # split sep cs
      else (case split sep cs of [] \<Rightarrow> [[c]] | p # ps \<Rightarrow> (c # p) # ps))"

definition is_digit :: "char \<Rightarrow> bool" where
  "is_digit c = (48 \<le> (of_char c :: nat) \<and> (of_char c :: nat) \<le> 57)"

definition digit_val :: "char \<Rightarrow> int" where
  "digit_val c = int (of_char c) - 48"

definition digits_val :: "string \<Rightarrow> int" where
  "digits_val s = foldl (\<lambda>n c. 10 * n + digit_val c) 0 s"

text \<open>
  \<open>Number(s)\<close> on a string: a run of decimal digits is its value and the empty string is
  \<open>0\<close>. The other numeric literals of JavaScript (signs, fractions, exponents, hexadecimal,
  surrounding blanks) do not occur in the \<open>HH:MM\<close> parts the program converts; the model
  gives \<open>NaN\<close> for them, as for every non-numeric string.
\<close>

definition Number :: "string \<Rightarrow> number" where
  "Number s = (if list_all is_digit s then Num (digits_val s) else NaN)"

text \<open>An array element read by index: \<open>undefined\<close>, hence \<open>NaN\<close> in arithmetic, out of range.\<close>

definition elem :: "number list \<Rightarrow> nat \<Rightarrow> number" where
  "elem xs i = (if i < length xs then xs ! i else NaN)"

definition digit_char :: "nat \<Rightarrow> char" where
  "digit_char n = char_of (48 + n)"

fun show_nat :: "nat \<Rightarrow> string" where
  "show_nat n = (if n < 10 then [digit_char n] else show_nat (n div 10) @ [digit_char (n mod 10)])"

text \<open>\<open>String(n)\<close> for an integral number.\<close>

definition String_of :: "int \<Rightarrow> string" where
  "String_of n = (if n < 0 then CHR ''-'' # show_nat (nat (- n)) else show_nat (nat n))"

definition padStart :: "nat \<Rightarrow> char \<Rightarrow> string \<Rightarrow> string" where
  "padStart n c s = replicate (n - length s) c @ s"

subsection \<open>JSON values and objects\<close>

datatype json =
    JNull
  | JBool bool
  | JNum int
  | JStr string
  | JArr "json list"
  | JObj "(string \<times> json) list"

text \<open>
  A string handed to \<open>JSON.parse\<close> is kept as what \<open>JSON.parse\<close> makes of it:
  \<open>Text v\<close> is a string that parses to \<open>v\<close> (such as \<open>JSON.stringify(v)\<close>), and
  \<open>Unparsed s\<close> is a string \<open>s\<close> on which \<open>JSON.parse\<close> throws (the empty string
  among them).
\<close>

datatype item = Text json | Unparsed string

datatype error = SyntaxError | TypeError | RangeError | IllTyped

fun truthy :: "json \<Rightarrow> bool" where
  "truthy JNull = False"
| "truthy (JBool b) = b"
| "truthy (JNum n) = (n \<noteq> 0)"
| "truthy (JStr s) = (s \<noteq> [])"
| "truthy (JArr xs) = True"
| "truthy (JObj kv) = True"

text \<open>Writing an entry of a key-value list: in place when the key is there, else at the end.\<close>

fun assign :: "('k \<times> 'v) list \<Rightarrow> 'k \<Rightarrow> 'v \<Rightarrow> ('k \<times> 'v) list" where
  "assign [] k v = [(k, v)]"
| "assign ((k', v') # kvs) k v =
     (if k' = k then (k, v) # kvs else (k', v') # assign kvs k v)"

text \<open>
  \<open>obj[key] = v\<close> on an object literal. The key \<open>__proto__\<close> reaches the prototype
  setter and defines no property. The model lists properties in the order of their
  creation (an engine lists index-like names first; no result below depends on the order).
\<close>

definition assign_prop :: "(string \<times> json) list \<Rightarrow> string \<Rightarrow> json \<Rightarrow> (string \<times> json) list" where
  "assign_prop obj key v = (if key = ''__proto__'' then obj else assign obj key v)"

fun indexed :: "nat \<Rightarrow> 'a list \<Rightarrow> (string \<times> 'a) list" where
  "indexed i [] = []"
| "indexed i (x # xs) = (show_nat i, x) # indexed (Suc i) xs"

text \<open>\<open>Object.entries(v)\<close>: throws a \<open>TypeError\<close> on \<open>null\<close>.\<close>

fun Object_entries :: "json \<Rightarrow> error + (string \<times> json) list" where
  "Object_entries JNull = Inl TypeError"
| "Object_entries (JBool b) = Inr []"
| "Object_entries (JNum n) = Inr []"
| "Object_entries (JStr s) = Inr (indexed 0 (map (\<lambda>c. JStr [c]) s))"
| "Object_entries (JArr xs) = Inr (indexed 0 xs)"
| "Object_entries (JObj kv) = Inr kv"

section \<open>The host: clock, time zone, random identifiers, store quota, locale\<close>

text \<open>
  What an operation reads from its surroundings when it is called:
  the time zone as minutes east of UTC, \<open>new Date().toISOString()\<close>,
  \<open>new Date().toTimeString().substr(0, 5)\<close>, the suffix
  \<open>Date.now().toString(36) + Math.random().toString(36).substr(2, 5)\<close> of a new
  identifier, when \<open>localStorage.setItem\<close> throws, \<open>a.localeCompare(b)\<close>, and the long
  name of a month (by index) in the default locale.
\<close>

record host =
  tzMinutes :: int
  nowISO :: string
  nowHHMM :: string
  uid :: string
  quotaExceeded :: "(string \<times> item) list \<Rightarrow> string \<Rightarrow> item \<Rightarrow> bool"
  localeCompare :: "string \<Rightarrow> string \<Rightarrow> int"
  monthLong :: "int \<Rightarrow> string"

section \<open>Storage (js/utils/Storage.js)\<close>

type_synonym localStorage = "(string \<times> item) list"

definition getItem :: "localStorage \<Rightarrow> string \<Rightarrow> item option" where
  "getItem ls k = map_of ls k"

definition storageKey :: "string \<Rightarrow> string \<Rightarrow> string" where
  "storageKey ns key = ns @ '':'' @ key"

definition Storage_set :: "host \<Rightarrow> string \<Rightarrow> localStorage \<Rightarrow> string \<Rightarrow> json \<Rightarrow> bool \<times> localStorage" where
  "Storage_set h ns ls key data =
     (let serialized = Text data in
      if quotaExceeded h ls (storageKey ns key) serialized then (False, ls)
      else (True, assign ls (storageKey ns key) serialized))"

definition Storage_get :: "string \<Rightarrow> localStorage \<Rightarrow> string \<Rightarrow> json \<Rightarrow> json" where
  "Storage_get ns ls key defaultValue =
     (case getItem ls (storageKey ns key) of
        None \<Rightarrow> defaultValue
      | Some (Unparsed s) \<Rightarrow> defaultValue
      | Some (Text v) \<Rightarrow> v)"

definition exportAll_step :: "string \<Rightarrow> localStorage \<Rightarrow> (string \<times> json) list \<Rightarrow> string \<Rightarrow> (string \<times> json) list" where
  "exportAll_step ns ls data key =
     (if startsWith key (ns @ '':'') then
        (let shortKey = replace_first (ns @ '':'') [] key
         in assign_prop data shortKey (Storage_get ns ls shortKey JNull))
      else data)"

definition Storage_exportAll :: "string \<Rightarrow> localStorage \<Rightarrow> json" where
  "Storage_exportAll ns ls = JObj (foldl (exportAll_step ns ls) [] (map fst ls))"

definition importAll_entries :: "host \<Rightarrow> string \<Rightarrow> localStorage \<Rightarrow> (string \<times> json) list \<Rightarrow> localStorage" where
  "importAll_entries h ns ls es = foldl (\<lambda>s (key, v). snd (Storage_set h ns s key v)) ls es"

definition Storage_importAll :: "host \<Rightarrow> string \<Rightarrow> localStorage \<Rightarrow> json \<Rightarrow> error + localStorage" where
  "Storage_importAll h ns ls data =
     (case Object_entries data of
        Inl e \<Rightarrow> Inl e
      | Inr es \<Rightarrow> Inr (importAll_entries h ns ls es))"

section \<open>Dates\<close>

text \<open>
  Time values are milliseconds since the epoch, \<open>None\<close> standing for the invalid date.
  The day arithmetic is that of the language standard (\<open>DayFromYear\<close>, \<open>MakeDay\<close>,
  \<open>TimeClip\<close>, \<open>WeekDay\<close>); local time is UTC plus the fixed offset of the host.
\<close>

definition msPerDay :: int where
  "msPerDay = 86400000"

definition leap :: "int \<Rightarrow> bool" where
  "leap y = (y mod 4 = 0 \<and> (y mod 100 \<noteq> 0 \<or> y mod 400 = 0))"

definition DayFromYear :: "int \<Rightarrow> int" where
  "DayFromYear y = 365 * (y - 1970) + (y - 1969) div 4 - (y - 1901) div 100 + (y - 1601) div 400"

definition month_lengths :: "bool \<Rightarrow> int list" where
  "month_lengths lp = [31, if lp then 29 else 28, 31, 30, 31, 30, 31, 31, 30, 31, 30, 31]"

text \<open>\<open>MakeDay(year, month, date)\<close>, the month an index from 0 and carried into the year.\<close>

definition MakeDay :: "int \<Rightarrow> int \<Rightarrow> int \<Rightarrow> int" where
  "MakeDay year month dt =
     (let ym = year + month div 12; mn = nat (month mod 12)
      in DayFromYear ym + sum_list (take mn (month_lengths (leap ym))) + dt - 1)"

definition TimeClip :: "int \<Rightarrow> int option" where
  "TimeClip t = (if \<bar>t\<bar> > 8640000000000000 then None else Some t)"

text \<open>\<open>new Date(year, monthIndex, day)\<close>: local midnight; years 0 to 99 mean 1900 to 1999.\<close>

definition Date_local :: "int \<Rightarrow> int \<Rightarrow> int \<Rightarrow> int \<Rightarrow> int option" where
  "Date_local tz year month day =
     (let yr = (if 0 \<le> year \<and> year \<le> 99 then 1900 + year else year)
      in TimeClip (MakeDay yr month day * msPerDay - tz * 60000))"

text \<open>Year, month (from 1) and day of the month of a day number.\<close>

definition civil_from_days :: "int \<Rightarrow> int \<times> int \<times> int" where
  "civil_from_days z =
     (let z' = z + 719468;
          era = z' div 146097;
          doe = z' - era * 146097;
          yoe = (doe - doe div 1460 + doe div 36524 - doe div 146096) div 365;
          y = yoe + era * 400;
          doy = doe - (365 * yoe + yoe div 4 - yoe div 100);
          mp = (5 * doy + 2) div 153;
          d = doy - (153 * mp + 2) div 5 + 1;
          m = (if mp < 10 then mp + 3 else mp - 9)
      in (if m \<le> 2 then y + 1 else y, m, d))"

definition pad2 :: "int \<Rightarrow> string" where
  "pad2 n = padStart 2 CHR ''0'' (String_of n)"

definition iso_year :: "int \<Rightarrow> string" where
  "iso_year y =
     (if 0 \<le> y \<and> y \<le> 9999 then padStart 4 CHR ''0'' (String_of y)
      else (if y < 0 then CHR ''-'' else CHR ''+'') # padStart 6 CHR ''0'' (String_of \<bar>y\<bar>))"

text \<open>\<open>toISOString()\<close>: the UTC fields; a \<open>RangeError\<close> on the invalid date.\<close>

definition toISOString :: "int option \<Rightarrow> error + string" where
  "toISOString tv =
     (case tv of
        None \<Rightarrow> Inl RangeError
      | Some t \<Rightarrow>
          (let (y, m, d) = civil_from_days (t div msPerDay);
               tw = t mod msPerDay
           in Inr (iso_year y @ ''-'' @ pad2 m @ ''-'' @ pad2 d @ ''T''
                   @ pad2 (tw div 3600000) @ '':'' @ pad2 (tw div 60000 mod 60) @ '':''
                   @ pad2 (tw div 1000 mod 60) @ ''.''
                   @ padStart 3 CHR ''0'' (String_of (tw mod 1000)) @ ''Z'')))"

text \<open>
  \<open>new Date(s)\<close> for a string: the date-only form \<open>YYYY-MM-DD\<close> is midnight UTC of that
  day. What an engine makes of any other string (date-time forms, a day beyond the
  month's length, legacy formats) is left open by the standard; the model gives the
  invalid date.
\<close>

definition Date_parse :: "string \<Rightarrow> int option" where
  "Date_parse s =
     (if length s = 10 \<and> s ! 4 = CHR ''-'' \<and> s ! 7 = CHR ''-''
         \<and> list_all is_digit (take 4 s) \<and> list_all is_digit (take 2 (drop 5 s))
         \<and> list_all is_digit (drop 8 s)
      then (let y = digits_val (take 4 s); m = digits_val (take 2 (drop 5 s));
                d = digits_val (drop 8 s)
            in if 1 \<le> m \<and> m \<le> 12 \<and> 1 \<le> d \<and> d \<le> month_lengths (leap y) ! nat (m - 1)
               then TimeClip (MakeDay y (m - 1) d * msPerDay) else None)
      else None)"

text \<open>\<open>getDay()\<close>: the day of the week in local time, Sunday being 0.\<close>

definition getDay :: "int \<Rightarrow> int option \<Rightarrow> number" where
  "getDay tz tv =
     (case tv of None \<Rightarrow> NaN | Some t \<Rightarrow> Num (((t + tz * 60000) div msPerDay + 4) mod 7))"

section \<open>Data model\<close>

text \<open>
  The objects of the program as records. Field names carry the record's initial, the
  names \<open>id\<close>, \<open>name\<close>, \<open>classId\<close> and \<open>createdAt\<close> being shared by several objects.
  A schedule is the object the source builds: day names with their entries, in order.
\<close>

record day_entry =
  enabled :: bool
  startTime :: "string option"
  endTime :: "string option"

type_synonym schedule = "(string \<times> day_entry) list"

record classObj =
  c_id :: string
  c_name :: string
  c_schedule :: schedule
  c_createdAt :: string

record student =
  s_id :: string
  s_name :: string
  s_classId :: string
  s_photoUrl :: "string option"
  s_createdAt :: string

record arrival =
  a_id :: string
  a_studentId :: string
  a_classId :: string
  a_date :: string
  a_time :: string
  a_minutesLate :: number
  a_status :: string
  a_createdAt :: string

subsection \<open>What \<open>JSON.stringify\<close> writes for them\<close>

definition opt_prop :: "string \<Rightarrow> string option \<Rightarrow> (string \<times> json) list" where
  "opt_prop k v = (case v of None \<Rightarrow> [] | Some s \<Rightarrow> [(k, JStr s)])"

definition entry_json :: "day_entry \<Rightarrow> json" where
  "entry_json e =
     JObj ([(''enabled'', JBool (enabled e))] @ opt_prop ''startTime'' (startTime e)
           @ opt_prop ''endTime'' (endTime e))"

definition class_json :: "classObj \<Rightarrow> json" where
  "class_json c =
     JObj [(''id'', JStr (c_id c)), (''name'', JStr (c_name c)),
           (''schedule'', JObj (map (\<lambda>(d, e). (d, entry_json e)) (c_schedule c))),
           (''createdAt'', JStr (c_createdAt c))]"

text \<open>\<open>NaN\<close> is written as \<open>null\<close>.\<close>

fun number_json :: "number \<Rightarrow> json" where
  "number_json (Num n) = JNum n"
| "number_json NaN = JNull"

definition arrival_json :: "arrival \<Rightarrow> json" where
  "arrival_json a =
     JObj [(''id'', JStr (a_id a)), (''studentId'', JStr (a_studentId a)),
           (''classId'', JStr (a_classId a)), (''date'', JStr (a_date a)),
           (''time'', JStr (a_time a)), (''minutesLate'', number_json (a_minutesLate a)),
           (''status'', JStr (a_status a)), (''createdAt'', JStr (a_createdAt a))]"

subsection \<open>Reading them back\<close>

text \<open>
  A value read from the store is used by the program as it comes. The model reads an
  array of objects of the right shape into records and gives \<open>None\<close> for any other
  value, which is outside the data model.
\<close>

definition str_field :: "(string \<times> json) list \<Rightarrow> string \<Rightarrow> string option" where
  "str_field kv k = (case map_of kv k of Some (JStr s) \<Rightarrow> Some s | _ \<Rightarrow> None)"

definition opt_str_field :: "(string \<times> json) list \<Rightarrow> string \<Rightarrow> string option option" where
  "opt_str_field kv k =
     (case map_of kv k of None \<Rightarrow> Some None | Some (JStr s) \<Rightarrow> Some (Some s) | _ \<Rightarrow> None)"

definition entry_of_json :: "json \<Rightarrow> day_entry option" where
  "entry_of_json v =
     (case v of
        JObj kv \<Rightarrow>
          (case map_of kv ''enabled'' of
             Some (JBool b) \<Rightarrow>
               Option.bind (opt_str_field kv ''startTime'') (\<lambda>s.
               Option.bind (opt_str_field kv ''endTime'') (\<lambda>e.
               Some \<lparr>enabled = b, startTime = s, endTime = e\<rparr>))
           | _ \<Rightarrow> None)
      | _ \<Rightarrow> None)"

definition schedule_of_json :: "json \<Rightarrow> schedule option" where
  "schedule_of_json v =
     (case v of
        JObj kv \<Rightarrow> those (map (\<lambda>(d, e). map_option (Pair d) (entry_of_json e)) kv)
      | _ \<Rightarrow> None)"

definition class_of_json :: "json \<Rightarrow> classObj option" where
  "class_of_json v =
     (case v of
        JObj kv \<Rightarrow>
          Option.bind (str_field kv ''id'') (\<lambda>i.
          Option.bind (str_field kv ''name'') (\<lambda>n.
          Option.bind (Option.bind (map_of kv ''schedule'') schedule_of_json) (\<lambda>s.
          Option.bind (str_field kv ''createdAt'') (\<lambda>c.
          Some \<lparr>c_id = i, c_name = n, c_schedule = s, c_createdAt = c\<rparr>))))
      | _ \<Rightarrow> None)"

definition classes_of_json :: "json \<Rightarrow> classObj list option" where
  "classes_of_json v = (case v of JArr xs \<Rightarrow> those (map class_of_json xs) | _ \<Rightarrow> None)"

definition num_field :: "(string \<times> json) list \<Rightarrow> string \<Rightarrow> number option" where
  "num_field kv k = (case map_of kv k of Some (JNum n) \<Rightarrow> Some (Num n) | _ \<Rightarrow> None)"

definition arrival_of_json :: "json \<Rightarrow> arrival option" where
  "arrival_of_json v =
     (case v of
        JObj kv \<Rightarrow>
          Option.bind (str_field kv ''id'') (\<lambda>i.
          Option.bind (str_field kv ''studentId'') (\<lambda>s.
          Option.bind (str_field kv ''classId'') (\<lambda>c.
          Option.bind (str_field kv ''date'') (\<lambda>d.
          Option.bind (str_field kv ''time'') (\<lambda>t.
          Option.bind (num_field kv ''minutesLate'') (\<lambda>m.
          Option.bind (str_field kv ''status'') (\<lambda>u.
          Option.bind (str_field kv ''createdAt'') (\<lambda>r.
          Some \<lparr>a_id = i, a_studentId = s, a_classId = c, a_date = d, a_time = t,
                a_minutesLate = m, a_status = u, a_createdAt = r\<rparr>))))))))
      | _ \<Rightarrow> None)"

definition arrivals_of_json :: "json \<Rightarrow> arrival list option" where
  "arrivals_of_json v = (case v of JArr xs \<Rightarrow> those (map arrival_of_json xs) | _ \<Rightarrow> None)"

section \<open>The application state\<close>

text \<open>
  The namespace of the \<open>Storage\<close> object, the arrays held by the three managers, and
  the browser's \<open>localStorage\<close>.
\<close>

record app =
  namespace :: string
  classes :: "classObj list"
  students :: "student list"
  arrivals :: "arrival list"
  localStorage :: localStorage

section \<open>Schedule Registry (ClassManager)\<close>

definition ClassManager_save :: "host \<Rightarrow> app \<Rightarrow> app" where
  "ClassManager_save h st =
     st\<lparr>localStorage :=
          snd (Storage_set h (namespace st) (localStorage st) ''classes''
                 (JArr (map class_json (classes st))))\<rparr>"

definition getById :: "classObj list \<Rightarrow> string \<Rightarrow> classObj option" where
  "getById cs ident = find (\<lambda>c. c_id c = ident) cs"

definition defaultSchedule :: schedule where
  "defaultSchedule =
     [(''monday'', \<lparr>enabled = True, startTime = Some ''12:30'', endTime = Some ''14:20''\<rparr>),
      (''tuesday'', \<lparr>enabled = True, startTime = Some ''12:30'', endTime = Some ''14:20''\<rparr>),
      (''wednesday'', \<lparr>enabled = True, startTime = Some ''12:30'', endTime = Some ''14:20''\<rparr>),
      (''thursday'', \<lparr>enabled = True, startTime = Some ''12:30'', endTime = Some ''14:20''\<rparr>),
      (''friday'', \<lparr>enabled = True, startTime = Some ''12:30'', endTime = Some ''14:20''\<rparr>),
      (''saturday'', \<lparr>enabled = True, startTime = Some ''12:30'', endTime = Some ''14:20''\<rparr>),
      (''sunday'', \<lparr>enabled = False, startTime = None, endTime = None\<rparr>)]"

text \<open>
  The second argument of \<open>add\<close>: left out (or \<open>undefined\<close>), \<open>null\<close>, or a schedule
  object. The parameter is declared \<open>schedule = {}\<close>, so that the empty object stands in
  for an argument left out; \<open>schedule || this.defaultSchedule()\<close> then takes the
  default for a falsy value only, and every object is truthy.
\<close>

datatype schedule_arg = Omitted | NullArg | Given schedule

definition add :: "host \<Rightarrow> app \<Rightarrow> string \<Rightarrow> schedule_arg \<Rightarrow> classObj \<times> app" where
  "add h st name arg =
     (let schedule = (case arg of Omitted \<Rightarrow> Some [] | NullArg \<Rightarrow> None | Given s \<Rightarrow> Some s);
          newClass = \<lparr>c_id = ''cls_'' @ uid h,
                      c_name = name,
                      c_schedule = (case schedule of Some s \<Rightarrow> s | None \<Rightarrow> defaultSchedule),
                      c_createdAt = nowISO h\<rparr>
      in (newClass, ClassManager_save h (st\<lparr>classes := classes st @ [newClass]\<rparr>)))"

fun findIndex :: "('a \<Rightarrow> bool) \<Rightarrow> 'a list \<Rightarrow> nat option" where
  "findIndex P [] = None"
| "findIndex P (x # xs) = (if P x then Some 0 else map_option Suc (findIndex P xs))"

text \<open>The fields an update may carry; a field left out keeps its value.\<close>

record class_updates =
  u_id :: "string option"
  u_name :: "string option"
  u_schedule :: "schedule option"
  u_createdAt :: "string option"

definition merge_class :: "classObj \<Rightarrow> class_updates \<Rightarrow> classObj" where
  "merge_class c u =
     \<lparr>c_id = (case u_id u of Some x \<Rightarrow> x | None \<Rightarrow> c_id c),
      c_name = (case u_name u of Some x \<Rightarrow> x | None \<Rightarrow> c_name c),
      c_schedule = (case u_schedule u of Some x \<Rightarrow> x | None \<Rightarrow> c_schedule c),
      c_createdAt = (case u_createdAt u of Some x \<Rightarrow> x | None \<Rightarrow> c_createdAt c)\<rparr>"

definition update :: "host \<Rightarrow> app \<Rightarrow> string \<Rightarrow> class_updates \<Rightarrow> classObj option \<times> app" where
  "update h st ident updates =
     (case findIndex (\<lambda>c. c_id c = ident) (classes st) of
        Some index \<Rightarrow>
          (let merged = merge_class (classes st ! index) updates
           in (Some merged, ClassManager_save h (st\<lparr>classes := (classes st)[index := merged]\<rparr>)))
      | None \<Rightarrow> (None, st))"

definition delete :: "host \<Rightarrow> app \<Rightarrow> string \<Rightarrow> app" where
  "delete h st ident =
     ClassManager_save h (st\<lparr>classes := filter (\<lambda>c. c_id c \<noteq> ident) (classes st)\<rparr>)"

definition dayNames :: "string list" where
  "dayNames = [''sunday'', ''monday'', ''tuesday'', ''wednesday'', ''thursday'', ''friday'',
               ''saturday'']"

text \<open>
  \<open>dayNames[dayOfWeek]\<close> is \<open>undefined\<close> outside the seven indices, and
  \<open>classObj.schedule[undefined]\<close> reads the property named \<open>undefined\<close>.
\<close>

definition dayName :: "number \<Rightarrow> string" where
  "dayName dayOfWeek =
     (case dayOfWeek of
        Num i \<Rightarrow> if 0 \<le> i \<and> i < 7 then dayNames ! nat i else ''undefined''
      | NaN \<Rightarrow> ''undefined'')"

definition getScheduleForDay :: "classObj list \<Rightarrow> string \<Rightarrow> number \<Rightarrow> day_entry option" where
  "getScheduleForDay cs classId dayOfWeek =
     (case getById cs classId of
        None \<Rightarrow> None
      | Some classObj \<Rightarrow> map_of (c_schedule classObj) (dayName dayOfWeek))"

section \<open>Arrival Ledger (ArrivalTracker)\<close>

definition ArrivalTracker_save :: "host \<Rightarrow> app \<Rightarrow> app" where
  "ArrivalTracker_save h st =
     st\<lparr>localStorage :=
          snd (Storage_set h (namespace st) (localStorage st) ''arrivals''
                 (JArr (map arrival_json (arrivals st))))\<rparr>"

text \<open>The result object \<open>{ success, message, arrival }\<close>; a success carries no message.\<close>

record mark_result =
  success :: bool
  message :: "string option"
  m_arrival :: arrival

text \<open>Lines 196 to 208: the minutes late and the status, from the day's entry and the arrival time.\<close>

definition lateness :: "day_entry option \<Rightarrow> string \<Rightarrow> number \<times> string" where
  "lateness schedule arrivalTime =
     (case schedule of
        None \<Rightarrow> (Num 0, ''on-time'')
      | Some e \<Rightarrow>
          if \<not> enabled e then (Num 0, ''on-time'')
          else (case startTime e of
                  None \<Rightarrow> (Num 0, ''on-time'')
                | Some start \<Rightarrow>
                    if start = [] then (Num 0, ''on-time'')
                    else
                      (let sched = map Number (split CHR '':'' start);
                           arr = map Number (split CHR '':'' arrivalTime);
                           scheduleMinutes = num_add (num_mul (elem sched 0) (Num 60)) (elem sched 1);
                           arrivalMinutes = num_add (num_mul (elem arr 0) (Num 60)) (elem arr 1);
                           minutesLate = Math_max0 (num_sub arrivalMinutes scheduleMinutes)
                       in (minutesLate, if num_gt0 minutesLate then ''late'' else ''on-time''))))"

definition markArrival ::
  "host \<Rightarrow> app \<Rightarrow> string \<Rightarrow> string \<Rightarrow> string \<Rightarrow> string option \<Rightarrow> mark_result \<times> app" where
  "markArrival h st studentId classId date time =
     (case find (\<lambda>a. a_studentId a = studentId \<and> a_date a = date) (arrivals st) of
        Some existing \<Rightarrow>
          (\<lparr>success = False, message = Some ''Already marked'', m_arrival = existing\<rparr>, st)
      | None \<Rightarrow>
          (let arrivalTime = (case time of
                                Some t \<Rightarrow> if t \<noteq> [] then t else nowHHMM h
                              | None \<Rightarrow> nowHHMM h);
               dayOfWeek = getDay (tzMinutes h) (Date_parse date);
               schedule = getScheduleForDay (classes st) classId dayOfWeek;
               (minutesLate, status) = lateness schedule arrivalTime;
               arrival = \<lparr>a_id = ''arr_'' @ uid h,
                          a_studentId = studentId,
                          a_classId = classId,
                          a_date = date,
                          a_time = arrivalTime,
                          a_minutesLate = minutesLate,
                          a_status = status,
                          a_createdAt = nowISO h\<rparr>
           in (\<lparr>success = True, message = None, m_arrival = arrival\<rparr>,
               ArrivalTracker_save h (st\<lparr>arrivals := arrivals st @ [arrival]\<rparr>))))"

definition removeArrival :: "host \<Rightarrow> app \<Rightarrow> string \<Rightarrow> string \<Rightarrow> bool \<times> app" where
  "removeArrival h st studentId date =
     (case findIndex (\<lambda>a. a_studentId a = studentId \<and> a_date a = date) (arrivals st) of
        Some index \<Rightarrow>
          (True, ArrivalTracker_save h
                   (st\<lparr>arrivals := take index (arrivals st) @ drop (Suc index) (arrivals st)\<rparr>))
      | None \<Rightarrow> (False, st))"

definition hasArrived :: "app \<Rightarrow> string \<Rightarrow> string \<Rightarrow> arrival option" where
  "hasArrived st studentId date =
     find (\<lambda>a. a_studentId a = studentId \<and> a_date a = date) (arrivals st)"

text \<open>The two optional bounds of a date range; \<open>if (startDate)\<close> skips \<open>null\<close> and the empty string.\<close>

definition in_range :: "string option \<Rightarrow> string option \<Rightarrow> arrival list \<Rightarrow> arrival list" where
  "in_range startDate endDate xs =
     (let filtered = (case startDate of
                        Some s \<Rightarrow> if s \<noteq> [] then filter (\<lambda>a. str_ge (a_date a) s) xs else xs
                      | None \<Rightarrow> xs)
      in (case endDate of
            Some e \<Rightarrow> if e \<noteq> [] then filter (\<lambda>a. str_le (a_date a) e) filtered else filtered
          | None \<Rightarrow> filtered))"

text \<open>\<open>xs.reduce((sum, a) => sum + a.minutesLate, 0)\<close>\<close>

definition sum_minutesLate :: "arrival list \<Rightarrow> number" where
  "sum_minutesLate xs = foldl (\<lambda>sum a. num_add sum (a_minutesLate a)) (Num 0) xs"

text \<open>The statistics are object literals: property names with their (numeric) values.\<close>

definition getStudentStats ::
  "app \<Rightarrow> string \<Rightarrow> string option \<Rightarrow> string option \<Rightarrow> (string \<times> number) list" where
  "getStudentStats st studentId startDate endDate =
     (let filtered = in_range startDate endDate
                       (filter (\<lambda>a. a_studentId a = studentId) (arrivals st));
          total = length filtered;
          tardies = length (filter (\<lambda>a. a_status a = ''late'') filtered);
          onTime = length (filter (\<lambda>a. a_status a = ''on-time'') filtered);
          totalMinutesLate = sum_minutesLate filtered;
          avgMinutesLate = (if tardies > 0 then round_quotient totalMinutesLate tardies else Num 0)
      in [(''totalArrivals'', Num (int total)),
          (''onTime'', Num (int onTime)),
          (''tardies'', Num (int tardies)),
          (''totalMinutesLate'', totalMinutesLate),
          (''avgMinutesLate'', avgMinutesLate)])"

definition getClassStats ::
  "app \<Rightarrow> string \<Rightarrow> string option \<Rightarrow> string option \<Rightarrow> (string \<times> number) list" where
  "getClassStats st classId startDate endDate =
     (let filtered = in_range startDate endDate
                       (filter (\<lambda>a. a_classId a = classId) (arrivals st));
          tardies = length (filter (\<lambda>a. a_status a = ''late'') filtered);
          onTime = length (filter (\<lambda>a. a_status a = ''on-time'') filtered)
      in [(''totalArrivals'', Num (int (length filtered))),
          (''onTime'', Num (int onTime)),
          (''tardies'', Num (int tardies)),
          (''latenessRate'',
             if length filtered > 0 then round_percent tardies (length filtered) else Num 0)])"

section \<open>Report Aggregator (ReportGenerator)\<close>

text \<open>
  Lines 24 and 25: \<open>startDate\<close> is put together from the numbers, \<open>endDate\<close> is the
  date part of \<open>new Date(year, month, 0).toISOString()\<close>: day 0 of the next month at
  local midnight, printed in UTC.
\<close>

definition monthWindow :: "host \<Rightarrow> int \<Rightarrow> int \<Rightarrow> error + string \<times> string" where
  "monthWindow h year month =
     (let startDate = String_of year @ ''-'' @ padStart 2 CHR ''0'' (String_of month) @ ''-01''
      in (case toISOString (Date_local (tzMinutes h) year month 0) of
            Inl e \<Rightarrow> Inl e
          | Inr isoString \<Rightarrow> Inr (startDate, hd (split CHR ''T'' isoString))))"

record detail =
  d_date :: string
  d_time :: string
  d_minutesLate :: number

record row =
  r_id :: string
  r_name :: string
  r_photoUrl :: "string option"
  r_totalDays :: nat
  r_onTime :: nat
  r_tardies :: nat
  r_totalMinutesLate :: number
  r_avgMinutesLate :: number
  r_arrivals :: "detail list"

record report =
  rp_classId :: string
  rp_className :: string
  rp_year :: int
  rp_month :: int
  rp_monthName :: string
  rp_generatedAt :: string
  rp_students :: "row list"

definition getByClass :: "student list \<Rightarrow> string \<Rightarrow> student list" where
  "getByClass ss classId = filter (\<lambda>s. s_classId s = classId) ss"

definition student_row :: "string \<Rightarrow> string \<Rightarrow> arrival list \<Rightarrow> student \<Rightarrow> row" where
  "student_row startDate endDate stored student =
     (let arrivals = filter (\<lambda>a. a_studentId a = s_id student
                                 \<and> str_ge (a_date a) startDate
                                 \<and> str_le (a_date a) endDate) stored;
          tardies = filter (\<lambda>a. a_status a = ''late'') arrivals;
          totalMinutesLate = sum_minutesLate tardies
      in \<lparr>r_id = s_id student,
          r_name = s_name student,
          r_photoUrl = s_photoUrl student,
          r_totalDays = length arrivals,
          r_onTime = length (filter (\<lambda>a. a_status a = ''on-time'') arrivals),
          r_tardies = length tardies,
          r_totalMinutesLate = totalMinutesLate,
          r_avgMinutesLate = (if length tardies > 0
                              then round_quotient totalMinutesLate (length tardies) else Num 0),
          r_arrivals = map (\<lambda>a. \<lparr>d_date = a_date a, d_time = a_time a,
                                   d_minutesLate = a_minutesLate a\<rparr>) arrivals\<rparr>)"

text \<open>
  \<open>xs.sort(cmp)\<close> is stable; for a comparison that orders the elements it gives what
  the stable insertion sort gives.
\<close>

fun insert_by :: "('a \<Rightarrow> 'a \<Rightarrow> int) \<Rightarrow> 'a \<Rightarrow> 'a list \<Rightarrow> 'a list" where
  "insert_by cmp x [] = [x]"
| "insert_by cmp x (y # ys) = (if cmp x y \<le> 0 then x # y # ys else y # insert_by cmp x ys)"

definition sort_by :: "('a \<Rightarrow> 'a \<Rightarrow> int) \<Rightarrow> 'a list \<Rightarrow> 'a list" where
  "sort_by cmp xs = foldr (insert_by cmp) xs []"

text \<open>
  The report, \<open>null\<close> for an unknown class. The arrivals are read from the store, once
  for each student of the class.
\<close>

definition generateMonthlyReport ::
  "host \<Rightarrow> app \<Rightarrow> string \<Rightarrow> int \<Rightarrow> int \<Rightarrow> error + report option" where
  "generateMonthlyReport h st classId year month =
     (case getById (classes st) classId of
        None \<Rightarrow> Inr None
      | Some classObj \<Rightarrow>
          (case monthWindow h year month of
             Inl e \<Rightarrow> Inl e
           | Inr (startDate, endDate) \<Rightarrow>
               (let studs = getByClass (students st) classId;
                    monthName = (case Date_local (tzMinutes h) year (month - 1) 1 of
                                   None \<Rightarrow> ''Invalid Date''
                                 | Some t \<Rightarrow> monthLong h ((month - 1) mod 12))
                in (case (if studs = [] then Some []
                          else arrivals_of_json
                                 (Storage_get (namespace st) (localStorage st) ''arrivals'' (JArr [])))
                    of
                      None \<Rightarrow> Inl IllTyped
                    | Some stored \<Rightarrow>
                        Inr (Some \<lparr>rp_classId = classId,
                                   rp_className = c_name classObj,
                                   rp_year = year,
                                   rp_month = month,
                                   rp_monthName = monthName,
                                   rp_generatedAt = nowISO h,
                                   rp_students =
                                     sort_by (\<lambda>a b. localeCompare h (r_name a) (r_name b))
                                       (map (student_row startDate endDate stored) studs)\<rparr>)))))"

text \<open>\<open>JSON.stringify(this.storage.exportAll(), null, 2)\<close>\<close>

definition exportJSON :: "app \<Rightarrow> item" where
  "exportJSON st = Text (Storage_exportAll (namespace st) (localStorage st))"

text \<open>The result object \<open>{ success, error }\<close>; the error is kept as its kind.\<close>

record import_result =
  i_success :: bool
  i_error :: "error option"

definition importJSON :: "host \<Rightarrow> app \<Rightarrow> item \<Rightarrow> import_result \<times> app" where
  "importJSON h st jsonData =
     (case jsonData of
        Unparsed s \<Rightarrow> (\<lparr>i_success = False, i_error = Some SyntaxError\<rparr>, st)
      | Text data \<Rightarrow>
          (case Storage_importAll h (namespace st) (localStorage st) data of
             Inl e \<Rightarrow> (\<lparr>i_success = False, i_error = Some e\<rparr>, st)
           | Inr ls \<Rightarrow> (\<lparr>i_success = True, i_error = None\<rparr>, st\<lparr>localStorage := ls\<rparr>)))"

section \<open>Loading, in the module sources and in the bundle\<close>

text \<open>
  The module source reads \<open>this.storage.get('classes', [])\<close>. The bundle reads
  \<open>this.storage.get("classes") || this.getDefaultClasses()\<close>. The other methods of
  the three components are the same code in both, up to layout.
\<close>

definition ClassManager_load :: "app \<Rightarrow> app option" where
  "ClassManager_load st =
     map_option (\<lambda>cs. st\<lparr>classes := cs\<rparr>)
       (classes_of_json (Storage_get (namespace st) (localStorage st) ''classes'' (JArr [])))"

definition getDefaultClasses :: "host \<Rightarrow> classObj list" where
  "getDefaultClasses h =
     [\<lparr>c_id = ''cls_default'',
       c_name = ''2AEP'',
       c_schedule =
         [(''monday'', \<lparr>enabled = True, startTime = Some ''14:30'', endTime = Some ''16:20''\<rparr>),
          (''tuesday'', \<lparr>enabled = True, startTime = Some ''14:30'', endTime = Some ''16:20''\<rparr>),
          (''wednesday'', \<lparr>enabled = True, startTime = Some ''14:30'', endTime = Some ''16:20''\<rparr>),
          (''thursday'', \<lparr>enabled = True, startTime = Some ''14:30'', endTime = Some ''16:20''\<rparr>),
          (''friday'', \<lparr>enabled = True, startTime = Some ''14:30'', endTime = Some ''16:20''\<rparr>),
          (''saturday'', \<lparr>enabled = True, startTime = Some ''14:30'', endTime = Some ''16:20''\<rparr>),
          (''sunday'', \<lparr>enabled = False, startTime = None, endTime = None\<rparr>)],
       c_createdAt = nowISO h\<rparr>]"

definition bundled_ClassManager_load :: "host \<Rightarrow> app \<Rightarrow> app option" where
  "bundled_ClassManager_load h st =
     (let v = Storage_get (namespace st) (localStorage st) ''classes'' JNull
      in if truthy v then map_option (\<lambda>cs. st\<lparr>classes := cs\<rparr>) (classes_of_json v)
         else Some (st\<lparr>classes := getDefaultClasses h\<rparr>))"

definition ArrivalTracker_load :: "app \<Rightarrow> app option" where
  "ArrivalTracker_load st =
     map_option (\<lambda>xs. st\<lparr>arrivals := xs\<rparr>)
       (arrivals_of_json (Storage_get (namespace st) (localStorage st) ''arrivals'' (JArr [])))"

section \<open>Sequences of operations\<close>

text \<open>The mutating operations of the registry and of the ledger, each run by its own host.\<close>

datatype op =
    Add string schedule_arg
  | Update string class_updates
  | Delete string
  | MarkArrival string string string "string option"
  | RemoveArrival string string

fun step :: "host \<Rightarrow> app \<Rightarrow> op \<Rightarrow> app" where
  "step h st (Add name arg) = snd (add h st name arg)"
| "step h st (Update ident updates) = snd (update h st ident updates)"
| "step h st (Delete ident) = delete h st ident"
| "step h st (MarkArrival studentId classId date time) =
     snd (markArrival h st studentId classId date time)"
| "step h st (RemoveArrival studentId date) = snd (removeArrival h st studentId date)"

definition run :: "app \<Rightarrow> (host \<times> op) list \<Rightarrow> app" where
  "run st ops = foldl (\<lambda>s (h, x). step h s x) st ops"

section \<open>Notions of the specification\<close>

text \<open>A time \<open>HH:MM\<close>, and its minutes since midnight.\<close>

definition is_HHMM :: "string \<Rightarrow> bool" where
  "is_HHMM s = (length s = 5 \<and> is_digit (s ! 0) \<and> is_digit (s ! 1) \<and> s ! 2 = CHR '':''
                \<and> is_digit (s ! 3) \<and> is_digit (s ! 4))"

definition minutes_since_midnight :: "string \<Rightarrow> int" where
  "minutes_since_midnight s =
     (10 * digit_val (s ! 0) + digit_val (s ! 1)) * 60 + (10 * digit_val (s ! 3) + digit_val (s ! 4))"

text \<open>At most one arrival for a student and a date.\<close>

definition arrival_key :: "arrival \<Rightarrow> string \<times> string" where
  "arrival_key a = (a_studentId a, a_date a)"

definition one_per_day :: "arrival list \<Rightarrow> bool" where
  "one_per_day xs = distinct (map arrival_key xs)"


text \<open>Rounding to the nearest integer, a half going away from zero.\<close>

definition round_half_away :: "rat \<Rightarrow> int" where
  "round_half_away x = (if 0 \<le> x then \<lfloor>x + 1 / 2\<rfloor> else - \<lfloor>- x + 1 / 2\<rfloor>)"

text \<open>
  An arrival as \<open>markArrival\<close> classifies it: a number of minutes that is not negative,
  and the status \<open>late\<close> exactly when it is positive.
\<close>

definition classified :: "arrival \<Rightarrow> bool" where
  "classified a =
     (case a_minutesLate a of Num n \<Rightarrow> 0 \<le> n \<and> (a_status a = ''late'') = (0 < n) | NaN \<Rightarrow> False)"

definition minutes_of :: "arrival \<Rightarrow> int" where
  "minutes_of a = (case a_minutesLate a of Num n \<Rightarrow> n | NaN \<Rightarrow> 0)"

definition late_entries :: "arrival list \<Rightarrow> arrival list" where
  "late_entries xs = filter (\<lambda>a. a_status a = ''late'') xs"

text \<open>Every item kept under the namespace is a JSON text.\<close>

definition is_text :: "item \<Rightarrow> bool" where
  "is_text i = (case i of Text v \<Rightarrow> True | Unparsed s \<Rightarrow> False)"

definition json_store :: "string \<Rightarrow> localStorage \<Rightarrow> bool" where
  "json_store ns ls = list_all (\<lambda>(k, i). startsWith k (ns @ '':'') \<longrightarrow> is_text i) ls"

section \<open>Example hosts and states\<close>

definition codeUnitCompare :: "string \<Rightarrow> string \<Rightarrow> int" where
  "codeUnitCompare a b = (if a = b then 0 else if str_le a b then - 1 else 1)"

definition englishMonth :: "int \<Rightarrow> string" where
  "englishMonth i =
     [''January'', ''February'', ''March'', ''April'', ''May'', ''June'', ''July'', ''August'',
      ''September'', ''October'', ''November'', ''December''] ! nat i"

text \<open>A host on UTC whose store takes every write.\<close>

definition host_utc :: host where
  "host_utc =
     \<lparr>tzMinutes = 0, nowISO = ''2024-03-05T08:00:00.000Z'', nowHHMM = ''08:00'',
      uid = ''ltd4k2x9q1'', quotaExceeded = (\<lambda>ls k i. False),
      localeCompare = codeUnitCompare, monthLong = englishMonth\<rparr>"

text \<open>The same host one hour east of UTC, as in Casablanca.\<close>

definition host_utc_plus_1 :: host where
  "host_utc_plus_1 = host_utc\<lparr>tzMinutes := 60, nowHHMM := ''09:00''\<rparr>"

text \<open>The same host five hours west of UTC, as in New York in winter.\<close>

definition host_utc_minus_5 :: host where
  "host_utc_minus_5 = host_utc\<lparr>tzMinutes := - 300, nowHHMM := ''03:00''\<rparr>"

text \<open>A host whose store refuses every write.\<close>

definition host_full :: host where
  "host_full = host_utc\<lparr>quotaExceeded := (\<lambda>ls k i. True)\<rparr>"

text \<open>The application as its constructors leave it, over an empty store.\<close>

definition fresh_app :: app where
  "fresh_app =
     \<lparr>namespace = ''lateness-tracker'', classes = [], students = [], arrivals = [],
      localStorage = []\<rparr>"

text \<open>A class added with no schedule argument, as the user interface adds it.\<close>

definition app_added :: app where
  "app_added = snd (add host_utc fresh_app ''1AEP'' Omitted)"

text \<open>
  A class with the default schedule, one student, and her arrival at 12:45 on
  Thursday 29 February 2024.
\<close>

definition app_class :: app where
  "app_class =
     (snd (add host_utc fresh_app ''1AEP'' (Given defaultSchedule)))
       \<lparr>students := [\<lparr>s_id = ''stu_1'', s_name = ''Amal'', s_classId = ''cls_ltd4k2x9q1'',
                      s_photoUrl = None, s_createdAt = ''2024-01-08T08:00:00.000Z''\<rparr>]\<rparr>"

definition app_feb29 :: app where
  "app_feb29 =
     snd (markArrival host_utc app_class ''stu_1'' ''cls_ltd4k2x9q1'' ''2024-02-29'' (Some ''12:45''))"

definition arrival_feb29 :: arrival where
  "arrival_feb29 =
     \<lparr>a_id = ''arr_ltd4k2x9q1'', a_studentId = ''stu_1'', a_classId = ''cls_ltd4k2x9q1'',
      a_date = ''2024-02-29'', a_time = ''12:45'', a_minutesLate = Num 15, a_status = ''late'',
      a_createdAt = ''2024-03-05T08:00:00.000Z''\<rparr>"



text \<open>
  Forty students of the class on Monday 4 March 2024, the first twenty-three of them
  ten minutes late.
\<close>

definition forty_arrivals :: "arrival list" where
  "forty_arrivals =
     map (\<lambda>i. \<lparr>a_id = ''arr_'' @ show_nat i, a_studentId = ''stu_'' @ show_nat i,
                a_classId = ''cls_ltd4k2x9q1'', a_date = ''2024-03-04'',
                a_time = (if i < 23 then ''12:40'' else ''12:30''),
                a_minutesLate = Num (if i < 23 then 10 else 0),
                a_status = (if i < 23 then ''late'' else ''on-time''),
                a_createdAt = ''2024-03-04T12:45:00.000Z''\<rparr>) [0..<40]"

definition app_forty :: app where
  "app_forty = app_class\<lparr>arrivals := forty_arrivals\<rparr>"

text \<open>A store whose item for the classes is not a JSON text.\<close>

definition damaged_store :: localStorage where
  "damaged_store = [(''lateness-tracker:classes'', Unparsed ''[{'')]"

section \<open>Schedule Registry: results\<close>

text \<open>
  Claim C1. The specification has \<open>add\<close> give a class the default weekly schedule when
  no schedule is supplied. In the code a call that leaves the schedule out gets the
  empty schedule: the parameter default \<open>{}\<close> is truthy, so the fallback to
  \<open>defaultSchedule()\<close> behind \<open>||\<close> is never taken for it. Only \<open>null\<close> reaches the
  default. This holds for every name, host and state.
\<close>

theorem add_omitted_schedule_empty:
  "c_schedule (fst (add h st name Omitted)) = []
   \<and> c_schedule (fst (add h st name Omitted)) \<noteq> defaultSchedule
   \<and> c_schedule (fst (add h st name NullArg)) = defaultSchedule"
  by (simp add: add_def Let_def defaultSchedule_def)

lemma dayName_index: "0 \<le> d \<Longrightarrow> d \<le> 6 \<Longrightarrow> dayName (Num d) = dayNames ! nat d"
  by (simp add: dayName_def)

text \<open>
  Claim C6, as amended. For a weekday index from 0 to 6, \<open>getScheduleForDay\<close> returns
  \<open>null\<close> exactly when no class has the id or the schedule of the class has no entry
  for that day; when the class exists and its schedule has an entry for the day, that
  entry is returned.
\<close>

theorem getScheduleForDay_null_iff:
  "0 \<le> d \<and> d \<le> 6 \<longrightarrow>
     (getScheduleForDay cs classId (Num d) = None
        \<longleftrightarrow> (case getById cs classId of
               None \<Rightarrow> True
             | Some c \<Rightarrow> map_of (c_schedule c) (dayNames ! nat d) = None))
     \<and> (\<forall>c e. getById cs classId = Some c \<and> map_of (c_schedule c) (dayNames ! nat d) = Some e
            \<longrightarrow> getScheduleForDay cs classId (Num d) = Some e)"
  by (auto simp: getScheduleForDay_def dayName_index split: option.splits)

text \<open>
  On a Sunday the class with the default schedule gives its closed entry, and an
  unknown id gives \<open>null\<close>.
\<close>

theorem getScheduleForDay_null_iff_witness:
  "(0::int) \<le> 0 \<and> (0::int) \<le> 6
   \<and> getById (classes app_class) ''cls_ltd4k2x9q1'' \<noteq> None
   \<and> getScheduleForDay (classes app_class) ''cls_ltd4k2x9q1'' (Num 0)
       = Some \<lparr>enabled = False, startTime = None, endTime = None\<rparr>
   \<and> getScheduleForDay (classes app_class) ''nobody'' (Num 0) = None"
proof -
  have a: "getById (classes app_class) ''nobody'' = None"
    by code_simp
  have b: "map_option (\<lambda>c. map_of (c_schedule c) (dayNames ! nat 0))
             (getById (classes app_class) ''cls_ltd4k2x9q1'')
           = Some (Some \<lparr>enabled = False, startTime = None, endTime = None\<rparr>)"
    by code_simp
  from a b getScheduleForDay_null_iff [of 0 "classes app_class" "''nobody''"]
       getScheduleForDay_null_iff [of 0 "classes app_class" "''cls_ltd4k2x9q1''"]
  show ?thesis by auto
qed

text \<open>
  Claim C6 as stated fails: the class that \<open>add\<close> makes when the schedule is left out
  exists, and \<open>getScheduleForDay\<close> returns \<open>null\<close> for its Monday.
\<close>

theorem getScheduleForDay_null_counterexample:
  "getById (classes app_added) ''cls_ltd4k2x9q1'' \<noteq> None
   \<and> getScheduleForDay (classes app_added) ''cls_ltd4k2x9q1'' (Num 1) = None"
  by code_simp

section \<open>Arrival Ledger: results\<close>

lemma HHMM_shape:
  assumes "is_HHMM s"
  obtains a b c d where "s = [a, b, CHR '':'', c, d]"
    and "is_digit a" "is_digit b" "is_digit c" "is_digit d"
proof -
  from assms have len: "length s = 5" by (simp add: is_HHMM_def)
  then obtain a b e c d where s: "s = [a, b, e, c, d]"
    by (cases s; simp; rename_tac x1 l1; case_tac l1; simp; rename_tac x2 l2; case_tac l2; simp;
        rename_tac x3 l3; case_tac l3; simp; rename_tac x4 l4; case_tac l4; simp)
  with assms show thesis
    by (intro that [of a b c d]) (simp_all add: is_HHMM_def)
qed

lemma digit_not_colon: "is_digit c \<Longrightarrow> c \<noteq> CHR '':''"
  by (auto simp: is_digit_def)

lemma HHMM_minutes:
  assumes "is_HHMM s"
  shows "num_add (num_mul (elem (map Number (split CHR '':'' s)) 0) (Num 60))
           (elem (map Number (split CHR '':'' s)) 1) = Num (minutes_since_midnight s)"
proof -
  from assms obtain a b c d where s: "s = [a, b, CHR '':'', c, d]"
    and d: "is_digit a" "is_digit b" "is_digit c" "is_digit d"
    by (rule HHMM_shape)
  from d have "split CHR '':'' s = [[a, b], [c, d]]"
    by (simp add: s digit_not_colon)
  with d show ?thesis
    by (simp add: s elem_def Number_def digits_val_def minutes_since_midnight_def)
qed

lemma lateness_HHMM:
  assumes "enabled e" "startTime e = Some S" "is_HHMM S" "is_HHMM T"
  shows "lateness (Some e) T =
           (Num (max 0 (minutes_since_midnight T - minutes_since_midnight S)),
            if 0 < minutes_since_midnight T - minutes_since_midnight S then ''late'' else ''on-time'')"
proof -
  from assms(3) have "S \<noteq> []" by (auto simp: is_HHMM_def)
  with assms HHMM_minutes [OF assms(3)] HHMM_minutes [OF assms(4)] show ?thesis
    by (simp add: lateness_def Let_def)
qed

text \<open>
  The weekday that \<open>markArrival\<close> computes is that of the date in local time, the
  date being read as midnight UTC. On a host at or east of UTC it is the weekday of the
  date; west of UTC it is the day before (1 January 2024 is a Monday).
\<close>

lemma Date_parse_midnight: "Date_parse s = Some t \<Longrightarrow> \<exists>k. t = k * msPerDay"
  by (auto simp: Date_parse_def TimeClip_def Let_def split: if_splits)

lemma getDay_east_of_utc:
  assumes "0 \<le> tz" and "tz < 1440" and "Date_parse s = Some t"
  shows "getDay tz (Date_parse s) = getDay 0 (Date_parse s)"
proof -
  from assms(3) obtain k where t: "t = k * msPerDay"
    using Date_parse_midnight by blast
  from assms(1,2) have "0 \<le> tz * 60000" "tz * 60000 < msPerDay"
    by (simp_all add: msPerDay_def)
  then have "(tz * 60000 + k * msPerDay) div msPerDay = k"
    by (simp add: msPerDay_def)
  moreover have "msPerDay \<noteq> 0"
    by (simp add: msPerDay_def)
  ultimately show ?thesis
    by (simp add: getDay_def assms(3) t add.commute)
qed

lemma getDay_west_of_utc_example:
  "getDay 0 (Date_parse ''2024-01-01'') = Num 1
   \<and> getDay (- 300) (Date_parse ''2024-01-01'') = Num 0"
  by code_simp

text \<open>
  The arithmetic of lines 196 to 208. Let the student have no arrival yet on the date,
  let the entry that \<open>markArrival\<close> fetches for the weekday it computes be enabled
  with start time \<open>S\<close>, and let the arrival time \<open>T\<close> be given, both of the form
  \<open>HH:MM\<close>. Then the arrival recorded has \<open>minutesLate = max(0, T - S)\<close> in minutes
  since midnight, and its status is \<open>late\<close> exactly when that is positive, \<open>on-time\<close>
  exactly when it is 0.
\<close>

lemma lateness_of_fetched_entry:
  assumes "hasArrived st studentId date = None"
    and "getScheduleForDay (classes st) classId (getDay (tzMinutes h) (Date_parse date)) = Some e"
    and "enabled e" and "startTime e = Some S" and "is_HHMM S" and "is_HHMM T"
  shows "(let r = fst (markArrival h st studentId classId date (Some T));
              late = max 0 (minutes_since_midnight T - minutes_since_midnight S)
          in success r
             \<and> a_time (m_arrival r) = T
             \<and> a_minutesLate (m_arrival r) = Num late
             \<and> (a_status (m_arrival r) = ''late'' \<longleftrightarrow> 0 < late)
             \<and> (a_status (m_arrival r) = ''on-time'' \<longleftrightarrow> late = 0)
             \<and> arrivals (snd (markArrival h st studentId classId date (Some T)))
                 = arrivals st @ [m_arrival r])"
proof -
  from assms(6) have "T \<noteq> []" by (auto simp: is_HHMM_def)
  with assms show ?thesis
    by (simp add: markArrival_def hasArrived_def Let_def lateness_HHMM ArrivalTracker_save_def)
qed

text \<open>
  Thursday 29 February 2024, start at 12:30, arrival at 12:45: fifteen minutes late.
\<close>

lemma lateness_of_fetched_entry_example:
  "hasArrived app_class ''stu_1'' ''2024-02-29'' = None
   \<and> getScheduleForDay (classes app_class) ''cls_ltd4k2x9q1''
        (getDay (tzMinutes host_utc) (Date_parse ''2024-02-29''))
       = Some \<lparr>enabled = True, startTime = Some ''12:30'', endTime = Some ''14:20''\<rparr>
   \<and> is_HHMM ''12:30'' \<and> is_HHMM ''12:45''
   \<and> a_minutesLate (m_arrival (fst (markArrival host_utc app_class ''stu_1'' ''cls_ltd4k2x9q1''
          ''2024-02-29'' (Some ''12:45'')))) = Num 15
   \<and> a_status (m_arrival (fst (markArrival host_utc app_class ''stu_1'' ''cls_ltd4k2x9q1''
          ''2024-02-29'' (Some ''12:45'')))) = ''late''"
proof -
  have a: "hasArrived app_class ''stu_1'' ''2024-02-29'' = None"
    by code_simp
  have b: "getScheduleForDay (classes app_class) ''cls_ltd4k2x9q1''
        (getDay (tzMinutes host_utc) (Date_parse ''2024-02-29''))
       = Some \<lparr>enabled = True, startTime = Some ''12:30'', endTime = Some ''14:20''\<rparr>"
    by code_simp
  have c: "is_HHMM ''12:30''" "is_HHMM ''12:45''"
    by code_simp+
  have d: "max 0 (minutes_since_midnight ''12:45'' - minutes_since_midnight ''12:30'') = 15"
    by code_simp
  from lateness_of_fetched_entry [where S = "''12:30''" and T = "''12:45''", OF a b] d a b c
  show ?thesis by (simp add: Let_def)
qed

text \<open>
  Claim C2. The claim speaks of the schedule entry for the weekday of the arrival. The
  code reads the date as midnight UTC and takes the weekday in local time, so that west
  of UTC it fetches the entry of the day before. Monday 1 January 2024, the class open
  on Mondays from 12:30 and closed on Sundays, arrival at 12:45: on a host five hours
  west of UTC \<open>markArrival\<close> fetches Sunday's entry and records 0 minutes and
  \<open>on-time\<close>, where the claim gives 15 minutes and \<open>late\<close>, as the same call
  records on a host on UTC.
\<close>

theorem markArrival_weekday_west_of_utc:
  "getDay 0 (Date_parse ''2024-01-01'') = Num 1
   \<and> getScheduleForDay (classes app_class) ''cls_ltd4k2x9q1'' (Num 1)
       = Some \<lparr>enabled = True, startTime = Some ''12:30'', endTime = Some ''14:20''\<rparr>
   \<and> hasArrived app_class ''stu_1'' ''2024-01-01'' = None
   \<and> getDay (tzMinutes host_utc_minus_5) (Date_parse ''2024-01-01'') = Num 0
   \<and> getScheduleForDay (classes app_class) ''cls_ltd4k2x9q1'' (Num 0)
       = Some \<lparr>enabled = False, startTime = None, endTime = None\<rparr>
   \<and> a_minutesLate (m_arrival (fst (markArrival host_utc_minus_5 app_class ''stu_1''
          ''cls_ltd4k2x9q1'' ''2024-01-01'' (Some ''12:45'')))) = Num 0
   \<and> a_status (m_arrival (fst (markArrival host_utc_minus_5 app_class ''stu_1''
          ''cls_ltd4k2x9q1'' ''2024-01-01'' (Some ''12:45'')))) = ''on-time''
   \<and> a_minutesLate (m_arrival (fst (markArrival host_utc app_class ''stu_1''
          ''cls_ltd4k2x9q1'' ''2024-01-01'' (Some ''12:45'')))) = Num 15
   \<and> a_status (m_arrival (fst (markArrival host_utc app_class ''stu_1''
          ''cls_ltd4k2x9q1'' ''2024-01-01'' (Some ''12:45'')))) = ''late''
   \<and> max 0 (minutes_since_midnight ''12:45'' - minutes_since_midnight ''12:30'') = 15"
  by code_simp

lemma arrivals_ArrivalTracker_save [simp]:
  "arrivals (ArrivalTracker_save h st) = arrivals st"
  "classes (ArrivalTracker_save h st) = classes st"
  "namespace (ArrivalTracker_save h st) = namespace st"
  by (simp_all add: ArrivalTracker_save_def)

lemma arrivals_ClassManager_save [simp]:
  "arrivals (ClassManager_save h st) = arrivals st"
  "classes (ClassManager_save h st) = classes st"
  "namespace (ClassManager_save h st) = namespace st"
  by (simp_all add: ClassManager_save_def)

lemma arrivals_add [simp]: "arrivals (snd (add h st name arg)) = arrivals st"
  by (simp add: add_def Let_def)

lemma arrivals_update [simp]: "arrivals (snd (update h st ident updates)) = arrivals st"
  by (simp add: update_def Let_def split: option.splits)

lemma arrivals_delete [simp]: "arrivals (delete h st ident) = arrivals st"
  by (simp add: delete_def)

lemma key_match: "(a_studentId x = s \<and> a_date x = d) = (arrival_key x = (s, d))"
  by (auto simp: arrival_key_def)

lemma findIndex_Some: "findIndex P xs = Some i \<Longrightarrow> i < length xs \<and> P (xs ! i)"
  by (induction xs arbitrary: i) (auto split: if_splits)

lemma distinct_remove_nth:
  "distinct ys \<Longrightarrow> distinct (take i ys @ drop (Suc i) ys)"
  using set_take_disj_set_drop_if_distinct [of ys i "Suc i"] by simp

lemma markArrival_existing:
  "hasArrived st s d = Some a \<Longrightarrow>
   markArrival h st s c d t =
     (\<lparr>success = False, message = Some ''Already marked'', m_arrival = a\<rparr>, st)"
  by (simp add: markArrival_def hasArrived_def)

lemma filter_unique:
  "distinct (map f xs) \<Longrightarrow> find (\<lambda>x. f x = k) xs = Some a \<Longrightarrow> filter (\<lambda>x. f x = k) xs = [a]"
proof (induction xs)
  case Nil
  then show ?case by simp
next
  case (Cons x xs)
  show ?case
  proof (cases "f x = k")
    case True
    from True Cons.prems have "a = x"
      by simp
    moreover from True Cons.prems have "f y \<noteq> k" if "y \<in> set xs" for y
      using that by (auto simp: image_iff)
    ultimately have "a = x" and "\<forall>y\<in>set xs. f y \<noteq> k"
      by blast+
    with True show ?thesis by (simp add: filter_empty_conv)
  next
    case False
    with Cons show ?thesis by simp
  qed
qed

lemma markArrival_new:
  assumes "hasArrived st s d = None"
  shows "success (fst (markArrival h st s c d t))"
    and "arrivals (snd (markArrival h st s c d t)) = arrivals st @ [m_arrival (fst (markArrival h st s c d t))]"
    and "a_studentId (m_arrival (fst (markArrival h st s c d t))) = s"
    and "a_date (m_arrival (fst (markArrival h st s c d t))) = d"
  using assms
  by (simp_all add: markArrival_def hasArrived_def Let_def split: prod.splits)

lemma one_per_day_markArrival:
  "one_per_day (arrivals st) \<Longrightarrow> one_per_day (arrivals (snd (markArrival h st s c d t)))"
proof (cases "hasArrived st s d")
  case None
  assume inv: "one_per_day (arrivals st)"
  from None have "\<forall>x\<in>set (arrivals st). arrival_key x \<noteq> (s, d)"
    by (simp add: hasArrived_def find_None_iff key_match)
  moreover have "arrival_key (m_arrival (fst (markArrival h st s c d t))) = (s, d)"
    using markArrival_new(3,4) [OF None] by (simp add: arrival_key_def)
  ultimately show ?thesis
    using inv markArrival_new(2) [OF None, of h c t] by (auto simp: one_per_day_def)
next
  case (Some a)
  assume "one_per_day (arrivals st)"
  then show ?thesis by (simp add: markArrival_existing [OF Some])
qed

lemma one_per_day_removeArrival:
  "one_per_day (arrivals st) \<Longrightarrow> one_per_day (arrivals (snd (removeArrival h st s d)))"
  using distinct_remove_nth [of "map arrival_key (arrivals st)"]
  by (simp add: removeArrival_def one_per_day_def take_map drop_map split: option.splits)

lemma one_per_day_step:
  "one_per_day (arrivals st) \<Longrightarrow> one_per_day (arrivals (step h st x))"
  by (cases x) (simp_all add: one_per_day_markArrival one_per_day_removeArrival)

lemma one_per_day_run:
  "one_per_day (arrivals st) \<Longrightarrow> one_per_day (arrivals (run st ops))"
  unfolding run_def
  by (induction ops arbitrary: st) (auto simp: one_per_day_step)

lemma find_append_new:
  "find P xs = None \<Longrightarrow> P a \<Longrightarrow> find P (xs @ [a]) = Some a"
  by (induction xs) (auto split: if_splits)

text \<open>
  Claim C3. Every sequence of operations keeps at most one arrival for a student and a
  date, from any ledger that has the property and so from the empty ledger. A call of
  \<open>markArrival\<close> for a pair already recorded returns \<open>success: false\<close> with the
  record that exists and leaves the whole state as it is, so that exactly that one
  record remains for the pair; in particular a second call after a first one returns
  the record the first call made.
\<close>

theorem one_arrival_per_student_and_date:
  "(one_per_day (arrivals st) \<longrightarrow> one_per_day (arrivals (run st ops)))
   \<and> one_per_day (arrivals (run (st\<lparr>arrivals := []\<rparr>) ops))
   \<and> (hasArrived st studentId date = Some a \<longrightarrow>
        markArrival h st studentId classId date time
          = (\<lparr>success = False, message = Some ''Already marked'', m_arrival = a\<rparr>, st))
   \<and> (one_per_day (arrivals st) \<and> hasArrived st studentId date = Some a \<longrightarrow>
        filter (\<lambda>x. a_studentId x = studentId \<and> a_date x = date)
          (arrivals (snd (markArrival h st studentId classId date time))) = [a])
   \<and> (hasArrived st studentId date = None \<longrightarrow>
        (let first = markArrival h st studentId classId date time;
             second = markArrival h' (snd first) studentId classId' date time'
         in success (fst first) \<and> \<not> success (fst second)
            \<and> m_arrival (fst second) = m_arrival (fst first)
            \<and> snd second = snd first
            \<and> filter (\<lambda>x. a_studentId x = studentId \<and> a_date x = date) (arrivals (snd second))
                = [m_arrival (fst first)]))"
proof (intro conjI impI)
  show "one_per_day (arrivals (run st ops))" if "one_per_day (arrivals st)"
    using that by (rule one_per_day_run)
  show "one_per_day (arrivals (run (st\<lparr>arrivals := []\<rparr>) ops))"
    by (rule one_per_day_run) (simp add: one_per_day_def)
  show "markArrival h st studentId classId date time
          = (\<lparr>success = False, message = Some ''Already marked'', m_arrival = a\<rparr>, st)"
    if "hasArrived st studentId date = Some a"
    using that by (rule markArrival_existing)
  show "filter (\<lambda>x. a_studentId x = studentId \<and> a_date x = date)
          (arrivals (snd (markArrival h st studentId classId date time))) = [a]"
    if "one_per_day (arrivals st) \<and> hasArrived st studentId date = Some a"
    using that filter_unique [of arrival_key "arrivals st" "(studentId, date)" a]
    by (simp add: markArrival_existing one_per_day_def hasArrived_def key_match)
  show "let first = markArrival h st studentId classId date time;
            second = markArrival h' (snd first) studentId classId' date time'
        in success (fst first) \<and> \<not> success (fst second)
           \<and> m_arrival (fst second) = m_arrival (fst first)
           \<and> snd second = snd first
           \<and> filter (\<lambda>x. a_studentId x = studentId \<and> a_date x = date) (arrivals (snd second))
               = [m_arrival (fst first)]"
    if none: "hasArrived st studentId date = None"
  proof -
    let ?first = "markArrival h st studentId classId date time"
    let ?new = "m_arrival (fst ?first)"
    have old: "filter (\<lambda>x. a_studentId x = studentId \<and> a_date x = date) (arrivals st) = []"
      using none by (simp add: hasArrived_def find_None_iff filter_empty_conv)
    have "hasArrived (snd ?first) studentId date = Some ?new"
      using none markArrival_new [OF none, of h classId time]
      by (simp add: hasArrived_def find_append_new)
    from markArrival_existing [OF this, of h' classId' time'] markArrival_new [OF none, of h classId time] old
    show ?thesis by (simp add: Let_def)
  qed
qed


text \<open>
  The ledger with the arrival of 29 February: a second mark is refused with that record;
  on the ledger before it, the first mark succeeds and the second is refused.
\<close>

theorem one_arrival_per_student_and_date_witness:
  "one_per_day (arrivals app_feb29)
   \<and> hasArrived app_feb29 ''stu_1'' ''2024-02-29'' = Some arrival_feb29
   \<and> one_per_day (arrivals (run app_feb29
         [(host_utc, RemoveArrival ''stu_1'' ''2024-02-29''),
          (host_utc_plus_1, MarkArrival ''stu_1'' ''cls_ltd4k2x9q1'' ''2024-02-29'' None)]))
   \<and> markArrival host_utc_plus_1 app_feb29 ''stu_1'' ''cls_ltd4k2x9q1'' ''2024-02-29'' (Some ''08:00'')
       = (\<lparr>success = False, message = Some ''Already marked'', m_arrival = arrival_feb29\<rparr>, app_feb29)
   \<and> filter (\<lambda>x. a_studentId x = ''stu_1'' \<and> a_date x = ''2024-02-29'')
        (arrivals (snd (markArrival host_utc_plus_1 app_feb29 ''stu_1'' ''cls_ltd4k2x9q1''
                          ''2024-02-29'' (Some ''08:00'')))) = [arrival_feb29]
   \<and> hasArrived app_class ''stu_1'' ''2024-02-29'' = None
   \<and> \<not> success (fst (markArrival host_utc_plus_1 app_feb29 ''stu_1'' ''cls_ltd4k2x9q1''
                        ''2024-02-29'' None))"
proof -
  have a: "one_per_day (arrivals app_feb29)"
    by code_simp
  have b: "hasArrived app_feb29 ''stu_1'' ''2024-02-29'' = Some arrival_feb29"
    by code_simp
  have c: "hasArrived app_class ''stu_1'' ''2024-02-29'' = None"
    by code_simp
  note t1 = one_arrival_per_student_and_date [of app_feb29
      "[(host_utc, RemoveArrival ''stu_1'' ''2024-02-29''),
        (host_utc_plus_1, MarkArrival ''stu_1'' ''cls_ltd4k2x9q1'' ''2024-02-29'' None)]"
      "''stu_1''" "''2024-02-29''" arrival_feb29 host_utc_plus_1 "''cls_ltd4k2x9q1''"
      "Some ''08:00''"]
  note t2 = one_arrival_per_student_and_date [of app_class "[]" "''stu_1''" "''2024-02-29''"
      arrival_feb29 host_utc "''cls_ltd4k2x9q1''" "Some ''12:45''" host_utc_plus_1
      "''cls_ltd4k2x9q1''" None]
  from t2 c have e: "\<not> success (fst (markArrival host_utc_plus_1 app_feb29 ''stu_1''
                        ''cls_ltd4k2x9q1'' ''2024-02-29'' None))"
    by (simp add: Let_def app_feb29_def)
  from t1 a b c e show ?thesis
    by blast
qed


lemma storageKey_eq [simp]: "(storageKey ns a = storageKey ns b) = (a = b)"
  by (simp add: storageKey_def)








section \<open>Storage, export and import: results\<close>

lemma restore_key:
  "startsWith key p \<Longrightarrow> p @ replace_first p [] key = key"
proof (cases key)
  case Nil
  assume "startsWith key p"
  with Nil show ?thesis by (simp add: startsWith_def)
next
  case (Cons c cs)
  assume "startsWith key p"
  then have "take (length p) key = p" by (simp add: startsWith_def)
  then have "p @ drop (length p) key = key" by (metis append_take_drop_id)
  with \<open>startsWith key p\<close> Cons show ?thesis by simp
qed

lemma storageKey_short:
  "startsWith key (ns @ '':'') \<Longrightarrow> storageKey ns (replace_first (ns @ '':'') [] key) = key"
  using restore_key [of key "ns @ '':''"] by (simp add: storageKey_def)

lemma startsWith_storageKey: "startsWith (storageKey ns k) (ns @ '':'')"
  by (simp add: startsWith_def storageKey_def)

lemma set_assign: "set (assign kvs k v) \<subseteq> insert (k, v) (set kvs)"
  by (induction kvs) (auto split: if_splits)

lemma set_assign_prop: "set (assign_prop obj k v) \<subseteq> insert (k, v) (set obj)"
  using set_assign [of obj k v] by (auto simp: assign_prop_def)

lemma exported_entries:
  "(k, v) \<in> set (foldl (exportAll_step ns ls) acc keys) \<Longrightarrow>
   (k, v) \<in> set acc \<or> (storageKey ns k \<in> set keys \<and> v = Storage_get ns ls k JNull)"
proof (induction keys arbitrary: acc)
  case Nil
  then show ?case by simp
next
  case (Cons key keys)
  from Cons.IH [OF Cons.prems [simplified]]
  consider "(k, v) \<in> set (exportAll_step ns ls acc key)"
    | "storageKey ns k \<in> set keys \<and> v = Storage_get ns ls k JNull"
    by blast
  then show ?case
  proof cases
    case 1
    show ?thesis
    proof (cases "startsWith key (ns @ '':'')")
      case True
      with 1 set_assign_prop [of acc "replace_first (ns @ '':'') [] key"
                                "Storage_get ns ls (replace_first (ns @ '':'') [] key) JNull"]
      have "(k, v) \<in> set acc
            \<or> (k = replace_first (ns @ '':'') [] key \<and> v = Storage_get ns ls k JNull)"
        by (auto simp: exportAll_step_def Let_def)
      with storageKey_short [OF True] show ?thesis by auto
    next
      case False
      with 1 show ?thesis by (simp add: exportAll_step_def)
    qed
  next
    case 2
    then show ?thesis by simp
  qed
qed

lemma map_fst_assign: "k \<in> fst ` set kvs \<Longrightarrow> map fst (assign kvs k v) = map fst kvs"
  by (induction kvs) force+

lemma map_of_assign: "map_of (assign kvs k v) = (map_of kvs)(k \<mapsto> v)"
  by (induction kvs) auto

lemma assign_same: "map_of kvs k = Some v \<Longrightarrow> assign kvs k v = kvs"
  by (induction kvs) (auto split: if_splits)

lemma Storage_get_after_set:
  "Storage_get ns (snd (Storage_set h ns ls k v)) key d
     = (if key = k \<and> \<not> quotaExceeded h ls (storageKey ns k) (Text v) then v
        else Storage_get ns ls key d)"
  by (simp add: Storage_get_def Storage_set_def Let_def getItem_def map_of_assign storageKey_def)

lemma keys_after_set:
  "storageKey ns k \<in> fst ` set ls \<Longrightarrow> map fst (snd (Storage_set h ns ls k v)) = map fst ls"
  by (simp add: Storage_set_def Let_def map_fst_assign)

text \<open>Writing back what the store already shows leaves the keys and every read as they are.\<close>

lemma import_same_view:
  assumes "\<forall>(k, v)\<in>set es. storageKey ns k \<in> fst ` set ls0 \<and> v = Storage_get ns ls0 k JNull"
    and "map fst ls = map fst ls0"
    and "\<forall>key. Storage_get ns ls key JNull = Storage_get ns ls0 key JNull"
  shows "map fst (importAll_entries h ns ls es) = map fst ls0
         \<and> (\<forall>key. Storage_get ns (importAll_entries h ns ls es) key JNull
                     = Storage_get ns ls0 key JNull)"
  using assms
proof (induction es arbitrary: ls)
  case Nil
  then show ?case by (simp add: importAll_entries_def)
next
  case (Cons e es)
  obtain k v where e: "e = (k, v)" by (cases e)
  let ?ls = "snd (Storage_set h ns ls k v)"
  from Cons.prems e have kv: "storageKey ns k \<in> fst ` set ls0" "v = Storage_get ns ls0 k JNull"
    by auto
  from Cons.prems(2) have "fst ` set ls = fst ` set ls0"
    by (metis set_map)
  with kv have "map fst ?ls = map fst ls"
    by (simp add: keys_after_set)
  with Cons.prems(2) have keys: "map fst ?ls = map fst ls0" by simp
  have reads: "\<forall>key. Storage_get ns ?ls key JNull = Storage_get ns ls0 key JNull"
    using Cons.prems(3) kv(2) by (simp add: Storage_get_after_set)
  from Cons.prems(1) have rest:
    "\<forall>(k, v)\<in>set es. storageKey ns k \<in> fst ` set ls0 \<and> v = Storage_get ns ls0 k JNull"
    by simp
  from Cons.IH [OF rest keys reads] e show ?case
    by (simp add: importAll_entries_def)
qed

lemma export_depends_on_view:
  assumes "map fst ls = map fst ls0"
    and "\<forall>key. Storage_get ns ls key JNull = Storage_get ns ls0 key JNull"
  shows "Storage_exportAll ns ls = Storage_exportAll ns ls0"
proof -
  from assms(2) have "exportAll_step ns ls = exportAll_step ns ls0"
    by (intro ext) (simp add: exportAll_step_def)
  with assms(1) show ?thesis by (simp add: Storage_exportAll_def)
qed

lemma import_unchanged:
  "\<forall>(k, v)\<in>set es. getItem ls (storageKey ns k) = Some (Text v) \<Longrightarrow>
   importAll_entries h ns ls es = ls"
proof (induction es)
  case Nil
  then show ?case by (simp add: importAll_entries_def)
next
  case (Cons e es)
  obtain k v where e: "e = (k, v)" by (cases e)
  with Cons.prems have "getItem ls (storageKey ns k) = Some (Text v)" by simp
  then have "snd (Storage_set h ns ls k v) = ls"
    by (simp add: Storage_set_def Let_def getItem_def assign_same)
  with Cons e show ?case by (simp add: importAll_entries_def)
qed

lemma json_store_item:
  assumes "json_store ns ls" and "storageKey ns k \<in> fst ` set ls"
  shows "getItem ls (storageKey ns k) = Some (Text (Storage_get ns ls k JNull))"
proof -
  from assms(2) obtain i where i: "map_of ls (storageKey ns k) = Some i"
    by (metis domD dom_map_of_conv_image_fst)
  then have "(storageKey ns k, i) \<in> set ls" by (rule map_of_SomeD)
  with assms(1) have "is_text i"
    by (auto simp: json_store_def list_all_iff startsWith_storageKey)
  with i show ?thesis
    by (cases i) (simp_all add: is_text_def Storage_get_def getItem_def)
qed

text \<open>
  Exporting a store and importing the export into the same store.
\<close>

lemma round_trip_same_store:
  "(case Storage_importAll h ns ls (Storage_exportAll ns ls) of
      Inl e \<Rightarrow> False
    | Inr ls' \<Rightarrow>
        Storage_exportAll ns ls' = Storage_exportAll ns ls
        \<and> map fst ls' = map fst ls
        \<and> (\<forall>key. Storage_get ns ls' key JNull = Storage_get ns ls key JNull)
        \<and> (json_store ns ls \<longrightarrow> ls' = ls))
   \<and> (json_store (namespace st) (localStorage st) \<longrightarrow>
        importJSON h st (exportJSON st) = (\<lparr>i_success = True, i_error = None\<rparr>, st))"
proof -
  let ?es = "foldl (exportAll_step ns ls) [] (map fst ls)"
  have es: "\<forall>(k, v)\<in>set ?es. storageKey ns k \<in> fst ` set ls \<and> v = Storage_get ns ls k JNull"
    using exported_entries [of _ _ ns ls "[]" "map fst ls"] by auto
  from import_same_view [OF es, of ls h]
  have view: "map fst (importAll_entries h ns ls ?es) = map fst ls"
    "\<forall>key. Storage_get ns (importAll_entries h ns ls ?es) key JNull = Storage_get ns ls key JNull"
    by simp_all
  have same: "importAll_entries h ns ls ?es = ls" if "json_store ns ls"
    using es json_store_item [OF that] by (intro import_unchanged) fastforce
  have first: "case Storage_importAll h ns ls (Storage_exportAll ns ls) of
      Inl e \<Rightarrow> False
    | Inr ls' \<Rightarrow>
        Storage_exportAll ns ls' = Storage_exportAll ns ls
        \<and> map fst ls' = map fst ls
        \<and> (\<forall>key. Storage_get ns ls' key JNull = Storage_get ns ls key JNull)
        \<and> (json_store ns ls \<longrightarrow> ls' = ls)"
    using view same export_depends_on_view [OF view]
    by (simp add: Storage_importAll_def Storage_exportAll_def)
  show ?thesis
  proof (intro conjI impI)
    show "case Storage_importAll h ns ls (Storage_exportAll ns ls) of
      Inl e \<Rightarrow> False
    | Inr ls' \<Rightarrow>
        Storage_exportAll ns ls' = Storage_exportAll ns ls
        \<and> map fst ls' = map fst ls
        \<and> (\<forall>key. Storage_get ns ls' key JNull = Storage_get ns ls key JNull)
        \<and> (json_store ns ls \<longrightarrow> ls' = ls)"
      by (rule first)
  next
    assume js: "json_store (namespace st) (localStorage st)"
    let ?n = "namespace st" and ?l = "localStorage st"
    let ?e = "foldl (exportAll_step ?n ?l) [] (map fst ?l)"
    have e: "\<forall>(k, v)\<in>set ?e. storageKey ?n k \<in> fst ` set ?l \<and> v = Storage_get ?n ?l k JNull"
      using exported_entries [of _ _ ?n ?l "[]" "map fst ?l"] by auto
    have "importAll_entries h ?n ?l ?e = ?l"
      using e json_store_item [OF js] by (intro import_unchanged) fastforce
    then show "importJSON h st (exportJSON st) = (\<lparr>i_success = True, i_error = None\<rparr>, st)"
      by (simp add: importJSON_def exportJSON_def Storage_importAll_def Storage_exportAll_def)
  qed
qed


lemma keys_assign: "fst ` set (assign kvs k v) = insert k (fst ` set kvs)"
proof -
  have "fst ` set (assign kvs k v) = dom (map_of (assign kvs k v))"
    by (simp add: dom_map_of_conv_image_fst)
  also have "\<dots> = insert k (dom (map_of kvs))"
    by (simp add: map_of_assign)
  finally show ?thesis
    by (simp add: dom_map_of_conv_image_fst)
qed

lemma replace_first_prefix: "replace_first p [] (p @ k) = k"
  using restore_key [of "p @ k" p] by (simp add: startsWith_def)

lemma storageKey_iff:
  "(storageKey ns k = key) = (startsWith key (ns @ '':'') \<and> k = replace_first (ns @ '':'') [] key)"
proof
  assume "storageKey ns k = key"
  then show "startsWith key (ns @ '':'') \<and> k = replace_first (ns @ '':'') [] key"
    using startsWith_storageKey [of ns k] replace_first_prefix [of "ns @ '':''" k]
    by (auto simp: storageKey_def)
next
  assume "startsWith key (ns @ '':'') \<and> k = replace_first (ns @ '':'') [] key"
  then show "storageKey ns k = key"
    by (simp add: storageKey_short)
qed

lemma keys_exportAll_step:
  "fst ` set (exportAll_step ns ls acc key)
     = fst ` set acc \<union> {k. k \<noteq> ''__proto__'' \<and> storageKey ns k = key}"
  by (auto simp: exportAll_step_def Let_def assign_prop_def keys_assign storageKey_iff)

lemma exported_keys:
  "fst ` set (foldl (exportAll_step ns ls) acc keys)
     = fst ` set acc \<union> {k. k \<noteq> ''__proto__'' \<and> storageKey ns k \<in> set keys}"
proof (induction keys arbitrary: acc)
  case Nil
  then show ?case by simp
next
  case (Cons key keys)
  show ?case
    unfolding foldl_Cons Cons.IH keys_exportAll_step by auto
qed

lemma map_of_exported:
  "map_of (foldl (exportAll_step ns ls) [] (map fst ls)) key
     = (if key \<noteq> ''__proto__'' \<and> storageKey ns key \<in> fst ` set ls
        then Some (Storage_get ns ls key JNull) else None)"
proof (cases "key \<in> fst ` set (foldl (exportAll_step ns ls) [] (map fst ls))")
  case True
  then obtain v where v: "map_of (foldl (exportAll_step ns ls) [] (map fst ls)) key = Some v"
    by (metis domD dom_map_of_conv_image_fst)
  then have "(key, v) \<in> set (foldl (exportAll_step ns ls) [] (map fst ls))"
    by (rule map_of_SomeD)
  from exported_entries [OF this] have "v = Storage_get ns ls key JNull" by simp
  with v True show ?thesis by (simp add: exported_keys)
next
  case False
  then have "map_of (foldl (exportAll_step ns ls) [] (map fst ls)) key = None"
    by (simp add: map_of_eq_None_iff)
  with False show ?thesis by (simp add: exported_keys)
qed

lemma import_writes:
  assumes "\<forall>s k i. \<not> quotaExceeded h s k i" and "\<forall>(k, v)\<in>set es. v = f k"
  shows "Storage_get ns (importAll_entries h ns ls0 es) key d
         = (if key \<in> fst ` set es then f key else Storage_get ns ls0 key d)"
  using assms(2)
proof (induction es arbitrary: ls0)
  case Nil
  then show ?case by (simp add: importAll_entries_def)
next
  case (Cons e es)
  obtain k v where e: "e = (k, v)" by (cases e)
  with Cons.prems have v: "v = f k" and rest: "\<forall>(k, v)\<in>set es. v = f k" by auto
  from Cons.IH [OF rest, of "snd (Storage_set h ns ls0 k v)"] assms(1) e v show ?case
    by (simp add: importAll_entries_def Storage_get_after_set)
qed

text \<open>
  Claim C8, as amended. For every store, \<open>exportAll\<close> holds, under each key of the
  namespace (the name \<open>__proto__\<close> apart), the value that \<open>get\<close> reads for it,
  \<open>null\<close> for an item that is not a JSON text, and nothing else. Importing that
  export into any store that takes the writes makes every exported key read the exported
  value and leaves every other key as it was. Importing it into the store it came from
  does not throw, whichever writes are refused, and gives the same export again. When
  the items under the namespace are JSON texts, as \<open>set\<close> writes them, that store is
  left equal to the original, and so is the state after \<open>importJSON(exportJSON())\<close>,
  which reports success.
\<close>

theorem export_import_round_trip:
  "(case Storage_exportAll ns ls of
      JObj es \<Rightarrow>
        (\<forall>key. map_of es key
                  = (if key \<noteq> ''__proto__'' \<and> storageKey ns key \<in> fst ` set ls
                     then Some (Storage_get ns ls key JNull) else None))
    | _ \<Rightarrow> False)
   \<and> ((\<forall>s k i. \<not> quotaExceeded h s k i) \<longrightarrow>
        (case Storage_importAll h ns ls0 (Storage_exportAll ns ls) of
           Inl e \<Rightarrow> False
         | Inr ls' \<Rightarrow>
             (\<forall>key d. Storage_get ns ls' key d
                        = (if key \<noteq> ''__proto__'' \<and> storageKey ns key \<in> fst ` set ls
                           then Storage_get ns ls key JNull else Storage_get ns ls0 key d))))
   \<and> (case Storage_importAll h ns ls (Storage_exportAll ns ls) of
         Inl e \<Rightarrow> False
       | Inr ls' \<Rightarrow>
           Storage_exportAll ns ls' = Storage_exportAll ns ls
           \<and> map fst ls' = map fst ls
           \<and> (\<forall>key. Storage_get ns ls' key JNull = Storage_get ns ls key JNull)
           \<and> (json_store ns ls \<longrightarrow> ls' = ls))
   \<and> (json_store (namespace st) (localStorage st) \<longrightarrow>
        importJSON h st (exportJSON st) = (\<lparr>i_success = True, i_error = None\<rparr>, st))"
proof -
  let ?es = "foldl (exportAll_step ns ls) [] (map fst ls)"
  have es: "\<forall>(k, v)\<in>set ?es. storageKey ns k \<in> fst ` set ls \<and> v = Storage_get ns ls k JNull"
    using exported_entries [of _ _ ns ls "[]" "map fst ls"] by auto
  then have val: "\<forall>(k, v)\<in>set ?es. v = Storage_get ns ls k JNull"
    by auto
  have keys: "key \<in> fst ` set ?es
              \<longleftrightarrow> key \<noteq> ''__proto__'' \<and> storageKey ns key \<in> fst ` set ls" for key
    using exported_keys [of ns ls "[]" "map fst ls"] by auto
  have holds: "case Storage_exportAll ns ls of
      JObj es \<Rightarrow>
        (\<forall>key. map_of es key
                  = (if key \<noteq> ''__proto__'' \<and> storageKey ns key \<in> fst ` set ls
                     then Some (Storage_get ns ls key JNull) else None))
    | _ \<Rightarrow> False"
    by (simp add: Storage_exportAll_def map_of_exported)
  have writes: "case Storage_importAll h ns ls0 (Storage_exportAll ns ls) of
           Inl e \<Rightarrow> False
         | Inr ls' \<Rightarrow>
             (\<forall>key d. Storage_get ns ls' key d
                        = (if key \<noteq> ''__proto__'' \<and> storageKey ns key \<in> fst ` set ls
                           then Storage_get ns ls key JNull else Storage_get ns ls0 key d))"
    if "\<forall>s k i. \<not> quotaExceeded h s k i"
    using import_writes [OF that val, of ns ls0] keys
    by (simp add: Storage_importAll_def Storage_exportAll_def)
  from writes holds round_trip_same_store [where h = h and ns = ns and ls = ls and st = st]
  show ?thesis
    by blast
qed

text \<open>
  The store after one class and one arrival have been saved: it is unchanged by the
  round trip even when every write is refused, and its export imported into an empty
  store gives back the stored arrivals.
\<close>

theorem export_import_round_trip_witness:
  "json_store (namespace app_feb29) (localStorage app_feb29)
   \<and> Storage_importAll host_full (namespace app_feb29) (localStorage app_feb29)
        (Storage_exportAll (namespace app_feb29) (localStorage app_feb29))
       = Inr (localStorage app_feb29)
   \<and> importJSON host_utc app_feb29 (exportJSON app_feb29)
       = (\<lparr>i_success = True, i_error = None\<rparr>, app_feb29)
   \<and> Storage_get ''lateness-tracker'' (localStorage app_feb29) ''arrivals'' JNull
       = JArr [arrival_json arrival_feb29]
   \<and> Storage_get ''lateness-tracker''
        (projr (Storage_importAll host_utc ''lateness-tracker'' []
                  (Storage_exportAll ''lateness-tracker'' (localStorage app_feb29))))
        ''arrivals'' (JArr [])
       = JArr [arrival_json arrival_feb29]"
proof -
  have a: "json_store (namespace app_feb29) (localStorage app_feb29)"
    by code_simp
  have b: "\<forall>s k i. \<not> quotaExceeded host_utc s k i"
    by (simp add: host_utc_def)
  have c: "namespace app_feb29 = ''lateness-tracker''"
    "storageKey ''lateness-tracker'' ''arrivals'' \<in> fst ` set (localStorage app_feb29)"
    "Storage_get ''lateness-tracker'' (localStorage app_feb29) ''arrivals'' JNull
       = JArr [arrival_json arrival_feb29]"
    by code_simp+
  have d: "''arrivals'' \<noteq> ''__proto__''" by simp
  from export_import_round_trip [where h = host_full and ns = "namespace app_feb29"
      and ls = "localStorage app_feb29" and st = app_feb29 and ?ls0.0 = "[]"] a
  have e: "Storage_importAll host_full (namespace app_feb29) (localStorage app_feb29)
        (Storage_exportAll (namespace app_feb29) (localStorage app_feb29))
       = Inr (localStorage app_feb29)"
    by (auto split: sum.splits json.splits)
  from export_import_round_trip [where h = host_utc and ns = "''lateness-tracker''"
      and ls = "localStorage app_feb29" and st = app_feb29 and ?ls0.0 = "[]"] a b c d
  have f: "importJSON host_utc app_feb29 (exportJSON app_feb29)
       = (\<lparr>i_success = True, i_error = None\<rparr>, app_feb29)"
    and g: "Storage_get ''lateness-tracker''
        (projr (Storage_importAll host_utc ''lateness-tracker'' []
                  (Storage_exportAll ''lateness-tracker'' (localStorage app_feb29))))
        ''arrivals'' (JArr [])
       = JArr [arrival_json arrival_feb29]"
    by (auto split: sum.splits json.splits)
  from a c e f g show ?thesis by blast
qed

text \<open>
  Claim C8 as stated fails on a store whose item for the classes does not parse: the
  round trip replaces the item by \<open>null\<close>, and \<open>get('classes', [])\<close>, which read
  the default \<open>[]\<close> before, reads \<open>null\<close> after.
\<close>

theorem export_import_damaged_counterexample:
  "\<not> json_store ''lateness-tracker'' damaged_store
   \<and> Storage_get ''lateness-tracker'' damaged_store ''classes'' (JArr []) = JArr []
   \<and> Storage_importAll host_utc ''lateness-tracker'' damaged_store
        (Storage_exportAll ''lateness-tracker'' damaged_store)
       = Inr [(''lateness-tracker:classes'', Text JNull)]
   \<and> [(''lateness-tracker:classes'', Text JNull)] \<noteq> damaged_store
   \<and> Storage_get ''lateness-tracker'' [(''lateness-tracker:classes'', Text JNull)]
        ''classes'' (JArr []) = JNull"
  by code_simp

lemma importAll_full:
  "\<forall>ls k i. quotaExceeded h ls k i \<Longrightarrow> importAll_entries h ns ls es = ls"
  by (induction es) (auto simp: importAll_entries_def Storage_set_def)

lemma Object_entries_not_null: "data \<noteq> JNull \<Longrightarrow> \<exists>es. Object_entries data = Inr es"
  by (cases data) simp_all

text \<open>
  Claim C10, as amended. \<open>importJSON\<close> reports success whenever its argument parses
  to a JSON value other than \<open>null\<close>, whatever the writes do: when the store refuses
  every write, \<open>set\<close> returns \<open>false\<close> each time, the state is unchanged and the
  result is still \<open>{ success: true }\<close>. On the text \<open>null\<close> the call of
  \<open>Object.entries\<close> throws inside the \<open>try\<close> and the result is a failure, like
  the one for a text that does not parse.
\<close>

theorem importJSON_reports_success:
  "(data \<noteq> JNull \<longrightarrow> fst (importJSON h st (Text data)) = \<lparr>i_success = True, i_error = None\<rparr>)
   \<and> (data \<noteq> JNull \<and> (\<forall>ls k i. quotaExceeded h ls k i) \<longrightarrow>
        importJSON h st (Text data) = (\<lparr>i_success = True, i_error = None\<rparr>, st)
        \<and> \<not> fst (Storage_set h (namespace st) (localStorage st) key v))
   \<and> importJSON h st (Text JNull) = (\<lparr>i_success = False, i_error = Some TypeError\<rparr>, st)
   \<and> importJSON h st (Unparsed s) = (\<lparr>i_success = False, i_error = Some SyntaxError\<rparr>, st)"
proof (intro conjI impI)
  assume "data \<noteq> JNull"
  then obtain es where "Object_entries data = Inr es"
    using Object_entries_not_null by blast
  then show "fst (importJSON h st (Text data)) = \<lparr>i_success = True, i_error = None\<rparr>"
    by (simp add: importJSON_def Storage_importAll_def)
next
  assume a: "data \<noteq> JNull \<and> (\<forall>ls k i. quotaExceeded h ls k i)"
  then obtain es where "Object_entries data = Inr es"
    using Object_entries_not_null by blast
  with a importAll_full [of h "namespace st" "localStorage st" es]
  show "importJSON h st (Text data) = (\<lparr>i_success = True, i_error = None\<rparr>, st)"
    by (simp add: importJSON_def Storage_importAll_def)
  from a show "\<not> fst (Storage_set h (namespace st) (localStorage st) key v)"
    by (simp add: Storage_set_def)
qed (simp_all add: importJSON_def Storage_importAll_def)

text \<open>
  An import of two keys into a store that refuses every write.
\<close>

theorem importJSON_reports_success_witness:
  "JObj [(''classes'', JArr []), (''arrivals'', JArr [])] \<noteq> JNull
   \<and> \<not> fst (Storage_set host_full (namespace app_feb29) (localStorage app_feb29) ''classes'' (JArr []))
   \<and> importJSON host_full app_feb29 (Text (JObj [(''classes'', JArr []), (''arrivals'', JArr [])]))
       = (\<lparr>i_success = True, i_error = None\<rparr>, app_feb29)"
proof -
  have "\<forall>ls k i. quotaExceeded host_full ls k i"
    by (simp add: host_full_def)
  with importJSON_reports_success [where h = host_full and st = app_feb29
      and data = "JObj [(''classes'', JArr []), (''arrivals'', JArr [])]"
      and key = "''classes''" and v = "JArr []"]
  show ?thesis by simp
qed

text \<open>
  Claim C10 as stated fails on the text \<open>null\<close>, which parses as JSON.
\<close>

theorem importJSON_null_counterexample:
  "importJSON host_utc app_feb29 (Text JNull)
     = (\<lparr>i_success = False, i_error = Some TypeError\<rparr>, app_feb29)"
  by (simp add: importJSON_def Storage_importAll_def)

lemma Storage_get_truthy:
  "truthy (Storage_get ns ls key JNull) \<Longrightarrow> Storage_get ns ls key d = Storage_get ns ls key JNull"
  by (auto simp: Storage_get_def split: option.splits item.splits)

text \<open>
  Claim C5, as amended. Loading the classes differs between the two copies. When the
  store holds a truthy value under \<open>classes\<close> (any array, the empty one too) the
  bundle and the module source load the same list. When the key is absent the module
  source starts from the empty list and the bundle from its built-in default class.
\<close>

theorem bundled_load_defaults:
  "(truthy (Storage_get (namespace st) (localStorage st) ''classes'' JNull) \<longrightarrow>
      bundled_ClassManager_load h st = ClassManager_load st)
   \<and> (getItem (localStorage st) (storageKey (namespace st) ''classes'') = None \<longrightarrow>
        ClassManager_load st = Some (st\<lparr>classes := []\<rparr>)
        \<and> bundled_ClassManager_load h st = Some (st\<lparr>classes := getDefaultClasses h\<rparr>))"
proof (intro conjI impI)
  assume "truthy (Storage_get (namespace st) (localStorage st) ''classes'' JNull)"
  with Storage_get_truthy [OF this, of "JArr []"]
  show "bundled_ClassManager_load h st = ClassManager_load st"
    by (simp add: bundled_ClassManager_load_def ClassManager_load_def Let_def)
next
  assume a: "getItem (localStorage st) (storageKey (namespace st) ''classes'') = None"
  then show "ClassManager_load st = Some (st\<lparr>classes := []\<rparr>)"
    by (simp add: ClassManager_load_def Storage_get_def classes_of_json_def)
  from a show "bundled_ClassManager_load h st = Some (st\<lparr>classes := getDefaultClasses h\<rparr>)"
    by (simp add: bundled_ClassManager_load_def Storage_get_def)
qed

text \<open>
  A store with a saved class, and the empty store.
\<close>

theorem bundled_load_defaults_witness:
  "truthy (Storage_get (namespace app_feb29) (localStorage app_feb29) ''classes'' JNull)
   \<and> bundled_ClassManager_load host_utc app_feb29 = Some app_feb29
   \<and> ClassManager_load app_feb29 = Some app_feb29
   \<and> getItem (localStorage fresh_app) (storageKey (namespace fresh_app) ''classes'') = None
   \<and> map_option classes (ClassManager_load fresh_app) = Some []
   \<and> map_option classes (bundled_ClassManager_load host_utc fresh_app)
       = Some (getDefaultClasses host_utc)"
proof -
  have a: "truthy (Storage_get (namespace app_feb29) (localStorage app_feb29) ''classes'' JNull)"
    by code_simp
  have b: "ClassManager_load app_feb29 = Some app_feb29"
    by code_simp
  have c: "getItem (localStorage fresh_app) (storageKey (namespace fresh_app) ''classes'') = None"
    by code_simp
  from bundled_load_defaults [where st = app_feb29 and h = host_utc]
    bundled_load_defaults [where st = fresh_app and h = host_utc]
    a b c
  show ?thesis by simp
qed

text \<open>
  Claim C5 as stated fails: from the empty store the module source loads no class and
  the bundle loads one.
\<close>

theorem bundled_load_counterexample:
  "map_option classes (ClassManager_load fresh_app) = Some []
   \<and> map_option classes (bundled_ClassManager_load host_utc fresh_app) \<noteq> Some []"
  by code_simp

text \<open>
  Claim C4. The claim has the window end on the last calendar day of the month. On a
  host one hour east of UTC, \<open>new Date(2024, 2, 0)\<close> is local midnight of 29 February,
  which is 23:00 UTC of 28 February, and \<open>toISOString\<close> prints the UTC date: the
  window of February 2024 ends on \<open>2024-02-28\<close>, and the arrival stored for
  \<open>2024-02-29\<close> is missing from the report, which counts no day for the student. On
  a host on UTC the same call gives \<open>2024-02-29\<close> and counts the day.
\<close>

theorem monthly_report_window_east_of_utc:
  "monthWindow host_utc_plus_1 2024 2 = Inr (''2024-02-01'', ''2024-02-28'')
   \<and> Storage_get (namespace app_feb29) (localStorage app_feb29) ''arrivals'' (JArr [])
       = JArr [arrival_json arrival_feb29]
   \<and> a_studentId arrival_feb29 = ''stu_1'' \<and> a_date arrival_feb29 = ''2024-02-29''
   \<and> generateMonthlyReport host_utc_plus_1 app_feb29 ''cls_ltd4k2x9q1'' 2024 2
       = Inr (Some \<lparr>rp_classId = ''cls_ltd4k2x9q1'', rp_className = ''1AEP'', rp_year = 2024,
                     rp_month = 2, rp_monthName = ''February'',
                     rp_generatedAt = ''2024-03-05T08:00:00.000Z'',
                     rp_students =
                       [\<lparr>r_id = ''stu_1'', r_name = ''Amal'', r_photoUrl = None,
                         r_totalDays = 0, r_onTime = 0, r_tardies = 0,
                         r_totalMinutesLate = Num 0, r_avgMinutesLate = Num 0,
                         r_arrivals = []\<rparr>]\<rparr>)
   \<and> monthWindow host_utc 2024 2 = Inr (''2024-02-01'', ''2024-02-29'')
   \<and> map_option (map r_totalDays \<circ> rp_students)
        (projr (generateMonthlyReport host_utc app_feb29 ''cls_ltd4k2x9q1'' 2024 2)) = Some [1]"
  by code_simp

section \<open>Statistics: results\<close>

lemma pow2_powi: "pow2 e = 2 powi e"
  by (simp add: pow2_def power_int_def inverse_eq_divide power_one_over)

lemma pow2_pos [simp]: "0 < pow2 e"
  by (simp add: pow2_powi)

lemma pow2_nonzero [simp]: "pow2 e \<noteq> 0"
  by (simp add: pow2_powi)

lemma abs_pow2 [simp]: "\<bar>pow2 e\<bar> = pow2 e"
  by (simp add: abs_of_pos)

lemma pow2_Suc: "pow2 (e + 1) = 2 * pow2 e"
  by (simp add: pow2_powi power_int_add)

lemma pow2_diff: "pow2 (a - b) = pow2 a / pow2 b"
  by (simp add: pow2_powi power_int_diff)

lemma pow2_add: "pow2 (a + b) = pow2 a * pow2 b"
  by (simp add: pow2_powi power_int_add)

lemma pow2_nat: "pow2 (int n) = 2 ^ n"
  by (simp add: pow2_powi)

lemma pow2_less_iff: "pow2 a < pow2 b \<longleftrightarrow> a < b"
proof
  assume "pow2 a < pow2 b"
  show "a < b"
  proof (rule ccontr)
    assume "\<not> a < b"
    then have "b \<le> a" by simp
    then have "pow2 b \<le> pow2 a"
      by (simp add: pow2_powi power_int_increasing)
    with \<open>pow2 a < pow2 b\<close> show False by simp
  qed
next
  assume "a < b"
  then show "pow2 a < pow2 b"
    by (simp add: pow2_powi power_int_strict_increasing)
qed

lemma pow2_le_iff: "pow2 a \<le> pow2 b \<longleftrightarrow> a \<le> b"
  using pow2_less_iff [of b a] by (simp add: not_less [symmetric])

lemma binade_bounds:
  assumes "0 < x"
  shows "pow2 (binade x) \<le> x \<and> x < pow2 (binade x + 1)"
proof -
  obtain a b where q: "quotient_of x = (a, b)" by (cases "quotient_of x")
  then have b: "0 < b" and x: "x = of_int a / of_int b"
    using quotient_of_denom_pos quotient_of_div by blast+
  with assms have a: "0 < a"
    by (simp add: zero_less_divide_iff)
  let ?ka = "bitlen a" and ?kb = "bitlen b"
  from bitlen_bounds [OF a] have a1: "2 ^ nat (?ka - 1) \<le> a" and a2: "a < 2 ^ nat ?ka" by simp_all
  from bitlen_bounds [OF b] have b1: "2 ^ nat (?kb - 1) \<le> b" and b2: "b < 2 ^ nat ?kb" by simp_all
  from a have ka: "1 \<le> ?ka" by (simp add: bitlen_def floorlog_def)
  from b have kb: "1 \<le> ?kb" by (simp add: bitlen_def floorlog_def)
  have ra1: "pow2 (?ka - 1) \<le> of_int a"
    using a1 ka by (simp add: pow2_def)
  have ra2: "of_int a < pow2 ?ka"
    using a2 ka by (simp add: pow2_def)
  have rb1: "pow2 (?kb - 1) \<le> of_int b"
    using b1 kb by (simp add: pow2_def)
  have rb2: "of_int b < pow2 ?kb"
    using b2 kb by (simp add: pow2_def)
  have bpos: "(0::rat) < of_int b" using b by simp
  have lo: "pow2 (?ka - ?kb - 1) < x"
  proof -
    have "pow2 (?ka - ?kb - 1) = pow2 (?ka - 1) / pow2 ?kb"
      by (simp add: pow2_diff [symmetric] algebra_simps)
    also have "\<dots> \<le> of_int a / pow2 ?kb"
      by (intro divide_right_mono) (use ra1 in \<open>simp_all add: less_imp_le\<close>)
    also have "\<dots> < of_int a / of_int b"
      by (intro divide_strict_left_mono) (use rb2 bpos a in simp_all)
    finally show ?thesis by (simp add: x)
  qed
  have hi: "x < pow2 (?ka - ?kb + 1)"
  proof -
    have "x = of_int a / of_int b" by (rule x)
    also have "\<dots> < pow2 ?ka / of_int b"
      by (intro divide_strict_right_mono) (use ra2 bpos in simp_all)
    also have "\<dots> \<le> pow2 ?ka / pow2 (?kb - 1)"
      by (intro divide_left_mono) (use rb1 bpos in \<open>simp_all add: less_imp_le\<close>)
    also have "\<dots> = pow2 (?ka - ?kb + 1)"
      by (simp add: pow2_diff [symmetric] algebra_simps)
    finally show ?thesis .
  qed
  show ?thesis
  proof (cases "pow2 (?ka - ?kb) \<le> x")
    case True
    with q hi show ?thesis by (simp add: binade_def)
  next
    case False
    with q lo show ?thesis by (simp add: binade_def less_imp_le)
  qed
qed

lemma round_half_even_near: "\<bar>of_int (round_half_even m) - m\<bar> \<le> 1 / 2"
proof -
  have "of_int \<lfloor>m\<rfloor> \<le> m" "m < of_int \<lfloor>m\<rfloor> + 1" by linarith+
  then show ?thesis
    by (auto simp: round_half_even_def Let_def)
qed

lemma round_half_even_int: "round_half_even (of_int j) = j"
  by (simp add: round_half_even_def)

lemma fl_error:
  assumes "0 < x"
  shows "\<bar>fl x - x\<bar> \<le> x / 2 ^ 53"
proof -
  let ?e = "binade x"
  let ?u = "pow2 (?e - 52)"
  from assms have fl: "fl x = of_int (round_half_even (x / ?u)) * ?u"
    by (simp add: fl_def Let_def)
  have "(of_int (round_half_even (x / ?u)) - x / ?u) * ?u = fl x - x"
    by (simp add: fl left_diff_distrib)
  then have "\<bar>fl x - x\<bar> = \<bar>(of_int (round_half_even (x / ?u)) - x / ?u) * ?u\<bar>"
    by simp
  also have "\<dots> = \<bar>of_int (round_half_even (x / ?u)) - x / ?u\<bar> * ?u"
    by (simp add: abs_mult)
  finally have "\<bar>fl x - x\<bar> = \<bar>of_int (round_half_even (x / ?u)) - x / ?u\<bar> * ?u" .
  also have "\<dots> \<le> 1 / 2 * ?u"
    using round_half_even_near [of "x / ?u"] by (simp add: mult_right_mono)
  also have "\<dots> = pow2 ?e / 2 ^ 53"
    using pow2_diff [of ?e 52] pow2_nat [of 52] by simp
  also have "\<dots> \<le> x / 2 ^ 53"
    by (intro divide_right_mono) (use binade_bounds [OF assms] in simp_all)
  finally show ?thesis .
qed


lemma gap_upper:
  fixes a b k :: int
  assumes "0 < b" and "of_int a / of_int b < (of_int k + 1 / 2 :: rat)"
  shows "of_int a / of_int b \<le> (of_int k + 1 / 2 - 1 / (2 * of_int b) :: rat)"
proof -
  from assms have "(of_int (2 * a) :: rat) < of_int ((2 * k + 1) * b)"
    by (simp add: field_simps)
  then have "2 * a < (2 * k + 1) * b"
    by (simp only: of_int_less_iff)
  then have "2 * a + 1 \<le> (2 * k + 1) * b" by simp
  then have "(of_int (2 * a + 1) :: rat) \<le> of_int ((2 * k + 1) * b)"
    by (simp only: of_int_le_iff)
  with assms(1) show ?thesis
    by (simp add: field_simps)
qed

lemma gap_lower:
  fixes a b k :: int
  assumes "0 < b" and "(of_int k - 1 / 2 :: rat) < of_int a / of_int b"
  shows "(of_int k - 1 / 2 + 1 / (2 * of_int b) :: rat) \<le> of_int a / of_int b"
proof -
  from assms have "(of_int ((2 * k - 1) * b) :: rat) < of_int (2 * a)"
    by (simp add: field_simps)
  then have "(2 * k - 1) * b < 2 * a"
    by (simp only: of_int_less_iff)
  then have "(2 * k - 1) * b + 1 \<le> 2 * a" by simp
  then have "(of_int ((2 * k - 1) * b + 1) :: rat) \<le> of_int (2 * a)"
    by (simp only: of_int_le_iff)
  then have "(of_int ((2 * k - 1) * b + 1) :: rat) / (2 * of_int b) \<le> of_int (2 * a) / (2 * of_int b)"
    by (intro divide_right_mono) (use assms(1) in simp_all)
  moreover have "(of_int ((2 * k - 1) * b + 1) :: rat) / (2 * of_int b)
                 = of_int k - 1 / 2 + 1 / (2 * of_int b)"
    using assms(1) by (simp add: field_simps)
  moreover have "(of_int (2 * a) :: rat) / (2 * of_int b) = of_int a / of_int b"
    by simp
  ultimately show ?thesis by simp
qed

lemma Math_round_unique:
  "of_int k - 1 / 2 \<le> z \<Longrightarrow> z < of_int k + 1 / 2 \<Longrightarrow> Math_round z = k"
  unfolding Math_round_def by (intro floor_unique) simp_all

lemma fl_half_int:
  assumes "0 < j" and "j < 2 ^ 53"
  shows "fl (of_int j / 2) = of_int j / 2"
proof -
  let ?x = "of_int j / 2 :: rat"
  let ?e = "binade ?x"
  from assms(1) have pos: "0 < ?x" by simp
  from assms(2) have "(of_int j :: rat) < of_int (2 ^ 53)"
    by (simp only: of_int_less_iff)
  then have "?x < 2 ^ 52" by simp
  with binade_bounds [OF pos] have "pow2 ?e < pow2 52"
    using pow2_nat [of 52] by simp
  then have e: "?e \<le> 51" by (simp add: pow2_less_iff)
  have "pow2 (51 - ?e) * pow2 (?e - 52) = 1 / 2"
    using pow2_add [of "51 - ?e" "?e - 52", symmetric] by (simp add: pow2_def)
  then have "?x = of_int j * pow2 (51 - ?e) * pow2 (?e - 52)"
    by simp
  then have "?x / pow2 (?e - 52) = of_int j * pow2 (51 - ?e)"
    by (simp add: field_simps)
  also have "pow2 (51 - ?e) = of_int (2 ^ nat (51 - ?e))"
    using e by (simp add: pow2_def)
  finally have "?x / pow2 (?e - 52) = of_int (j * 2 ^ nat (51 - ?e))"
    by simp
  then have "of_int (round_half_even (?x / pow2 (?e - 52))) = ?x / pow2 (?e - 52)"
    by (simp only: round_half_even_int)
  with pos show ?thesis
    by (simp add: fl_def Let_def)
qed

lemma Math_round_fl_quotient:
  assumes "0 \<le> p" and "p < 2 ^ 52" and "0 < q"
  shows "Math_round (fl (of_int p / of_nat q)) = \<lfloor>of_int p / of_nat q + 1 / 2 :: rat\<rfloor>"
proof (cases "p = 0")
  case True
  then show ?thesis by (simp add: fl_def Math_round_def)
next
  case False
  define x :: rat where "x = of_int p / of_nat q"
  define k where "k = \<lfloor>x + 1 / 2\<rfloor>"
  from False assms have p: "0 < p" by simp
  with assms(3) have pos: "0 < x" by (simp add: x_def)
  have q: "(0::int) < int q" using assms(3) by simp
  have xq: "x = of_int p / of_int (int q)" by (simp add: x_def)
  from assms(2) have "(of_int p :: rat) < of_int (2 ^ 52)"
    by (simp only: of_int_less_iff)
  then have p52: "(of_int p :: rat) < 2 ^ 52" by simp
  have "x / 2 ^ 53 = of_int p / 2 ^ 53 / of_nat q" by (simp add: x_def)
  also have "\<dots> < (1 / 2) / of_nat q"
    by (intro divide_strict_right_mono) (use p52 assms(3) in simp_all)
  finally have small: "x / 2 ^ 53 < 1 / (2 * of_int (int q))" by simp
  from fl_error [OF pos] have err: "fl x \<le> x + x / 2 ^ 53" "x - x / 2 ^ 53 \<le> fl x"
    by linarith+
  have "x < of_int k + 1 / 2"
    unfolding k_def using floor_correct [of "x + 1 / 2"] by linarith
  from gap_upper [OF q this [unfolded xq]] small err(1)
  have upper: "fl x < of_int k + 1 / 2" by (simp add: xq)
  have le: "of_int k - 1 / 2 \<le> x"
    unfolding k_def using floor_correct [of "x + 1 / 2"] by linarith
  have lower: "of_int k - 1 / 2 \<le> fl x"
  proof (cases "of_int k - 1 / 2 = x")
    case True
    then have xk: "x = of_int (2 * k - 1) / 2" by simp
    with pos have j: "0 < 2 * k - 1" by simp
    have "x \<le> of_int p"
      using p assms(3) by (simp add: x_def field_simps mult_le_cancel_left1)
    with p52 xk have "(of_int (2 * k - 1) :: rat) < of_int (2 ^ 53)"
      by simp
    then have "2 * k - 1 < 2 ^ 53" by (simp only: of_int_less_iff)
    from fl_half_int [OF j this] have "fl x = x"
      by (simp only: xk [symmetric])
    with le show ?thesis by simp
  next
    case False
    with le have "of_int k - 1 / 2 < x" by simp
    from gap_lower [OF q this [unfolded xq]] small err(2)
    show ?thesis by (simp add: xq)
  qed
  from lower upper have "Math_round (fl x) = k" by (rule Math_round_unique)
  then show ?thesis by (simp add: x_def k_def)
qed


lemma half_way_mod:
  fixes k N T :: int
  assumes "0 < N" and "T = (2 * k - 1) * N"
  shows "T mod (2 * N) = N"
proof -
  have "T = N + (k - 1) * (2 * N)"
    by (simp add: assms(2) algebra_simps)
  then have "T mod (2 * N) = N mod (2 * N)"
    by (simp only: mod_mult_self1)
  with assms(1) show ?thesis by simp
qed

lemma round_percent_exact:
  assumes "t \<le> n" and "0 < n" and "n < 2 ^ 43" and "(200 * t) mod (2 * n) \<noteq> n"
  shows "round_percent t n = Num \<lfloor>100 * of_nat t / of_nat n + 1 / 2 :: rat\<rfloor>"
proof (cases "t = 0")
  case True
  then show ?thesis by (simp add: round_percent_def fl_def Math_round_def)
next
  case False
  define r :: rat where "r = of_nat t / of_nat n"
  define x :: rat where "x = 100 * of_nat t / of_nat n"
  define k where "k = \<lfloor>x + 1 / 2\<rfloor>"
  define y where "y = fl r"
  define z where "z = fl (y * 100)"
  have n: "(0::int) < int n" using assms(2) by simp
  have xq: "x = of_int (int (100 * t)) / of_int (int n)" by (simp add: x_def)
  from False assms have r: "0 < r" "r \<le> 1" by (simp_all add: r_def)
  have xr: "x = 100 * r" by (simp add: x_def r_def)
  from fl_error [OF r(1)] have y: "y \<le> r + r / 2 ^ 53" "r - r / 2 ^ 53 \<le> y"
    unfolding y_def by linarith+
  with r have ypos: "0 < y * 100" by simp
  from fl_error [OF ypos] have zz: "z \<le> y * 100 + y * 100 / 2 ^ 53" "y * 100 - y * 100 / 2 ^ 53 \<le> z"
    unfolding z_def by linarith+
  from y zz r have near: "z \<le> x + 300 / 2 ^ 53" "x - 300 / 2 ^ 53 \<le> z"
    unfolding xr by simp_all
  from assms(3) have "(of_nat n :: rat) < of_nat (2 ^ 43)"
    by (simp only: of_nat_less_iff)
  then have "(of_nat n :: rat) < 2 ^ 43" by simp
  with assms(2) have "1 / (2 ^ 43 :: rat) < 1 / of_nat n"
    by (intro divide_strict_left_mono) simp_all
  then have gap: "300 / 2 ^ 53 < 1 / (2 * of_int (int n) :: rat)"
    by simp
  have tie: "of_int k \<noteq> x + 1 / 2"
  proof
    assume "of_int k = x + 1 / 2"
    then have "(of_int (int (200 * t)) :: rat) = of_int ((2 * k - 1) * int n)"
      using assms(2) by (simp add: x_def field_simps)
    then have "int (200 * t) = (2 * k - 1) * int n"
      by (simp only: of_int_eq_iff)
    from half_way_mod [OF n this] have "int ((200 * t) mod (2 * n)) = int n"
      by (simp add: zmod_int)
    with assms(4) show False by simp
  qed
  have "of_int k \<le> x + 1 / 2" "x + 1 / 2 < of_int k + 1"
    unfolding k_def using floor_correct [of "x + 1 / 2"] by linarith+
  with tie have lo: "of_int k - 1 / 2 < x" and hi: "x < of_int k + 1 / 2"
    by linarith+
  from gap_lower [OF n lo [unfolded xq]] gap_upper [OF n hi [unfolded xq]] near gap
  have "of_int k - 1 / 2 \<le> z" "z < of_int k + 1 / 2"
    unfolding xq by linarith+
  then have "Math_round z = k" by (rule Math_round_unique)
  then show ?thesis
    by (simp add: round_percent_def z_def y_def r_def k_def x_def)
qed

lemma classified_cases:
  assumes "classified a"
  obtains n where "a_minutesLate a = Num n" "0 \<le> n" "(a_status a = ''late'') = (0 < n)"
  using assms by (auto simp: classified_def split: number.splits)

lemma foldl_minutesLate:
  "list_all classified xs \<Longrightarrow>
   foldl (\<lambda>sum a. num_add sum (a_minutesLate a)) (Num c) xs
     = Num (c + sum_list (map minutes_of (late_entries xs)))"
proof (induction xs arbitrary: c)
  case Nil
  then show ?case by (simp add: late_entries_def)
next
  case (Cons a xs)
  then have "classified a" and rest: "list_all classified xs" by simp_all
  then obtain n where n: "a_minutesLate a = Num n" "0 \<le> n" "(a_status a = ''late'') = (0 < n)"
    by (auto elim: classified_cases)
  show ?case
  proof (cases "a_status a = ''late''")
    case True
    with n Cons.IH [OF rest, of "c + n"] show ?thesis
      by (simp add: late_entries_def minutes_of_def)
  next
    case False
    with n have "n = 0" by simp
    with False n Cons.IH [OF rest, of c] show ?thesis
      by (simp add: late_entries_def)
  qed
qed

lemma sum_minutesLate_classified:
  "list_all classified xs \<Longrightarrow>
   sum_minutesLate xs = Num (sum_list (map minutes_of (late_entries xs)))"
  using foldl_minutesLate [of xs 0] by (simp add: sum_minutesLate_def)

lemma minutes_nonneg:
  "list_all classified xs \<Longrightarrow> 0 \<le> sum_list (map minutes_of xs)"
  by (induction xs) (auto simp: minutes_of_def elim!: classified_cases)

lemma list_all_in_range: "list_all P xs \<Longrightarrow> list_all P (in_range s e xs)"
  by (auto simp: in_range_def Let_def list_all_iff split: option.splits)

lemma list_all_late: "list_all P xs \<Longrightarrow> list_all P (late_entries xs)"
  by (simp add: late_entries_def list_all_iff)

lemma round_half_away_nonneg: "0 \<le> x \<Longrightarrow> round_half_away x = \<lfloor>x + 1 / 2\<rfloor>"
  by (simp add: round_half_away_def)

lemma student_avg:
  assumes "list_all classified (arrivals st)"
    and "sum_list (map minutes_of (late_entries (in_range startDate endDate
           (filter (\<lambda>a. a_studentId a = studentId) (arrivals st))))) < 2 ^ 52"
  shows "map_of (getStudentStats st studentId startDate endDate) ''avgMinutesLate''
         = Some (Num (let late = late_entries (in_range startDate endDate
                                   (filter (\<lambda>a. a_studentId a = studentId) (arrivals st)))
                      in if late = [] then 0
                         else round_half_away (of_int (sum_list (map minutes_of late))
                                               / of_nat (length late))))"
proof -
  let ?F = "in_range startDate endDate (filter (\<lambda>a. a_studentId a = studentId) (arrivals st))"
  let ?L = "late_entries ?F"
  let ?S = "sum_list (map minutes_of ?L)"
  from assms(1) have F: "list_all classified ?F"
    by (intro list_all_in_range) (simp add: list_all_iff)
  then have S0: "0 \<le> ?S" by (intro minutes_nonneg list_all_late)
  have total: "sum_minutesLate ?F = Num ?S"
    using F by (rule sum_minutesLate_classified)
  have len: "filter (\<lambda>a. a_status a = ''late'') ?F = ?L"
    by (simp add: late_entries_def)
  show ?thesis
  proof (cases "?L = []")
    case True
    then show ?thesis
      by (simp add: getStudentStats_def Let_def len)
  next
    case False
    then have pos: "0 < length ?L" by simp
    have "0 \<le> (of_int ?S / of_nat (length ?L) :: rat)"
      using S0 by simp
    with Math_round_fl_quotient [OF S0 assms(2) pos] False pos total show ?thesis
      by (simp add: getStudentStats_def Let_def len round_half_away_nonneg)
  qed
qed


lemma class_rate_exact:
  assumes "in_range startDate endDate (filter (\<lambda>a. a_classId a = classId) (arrivals st)) \<noteq> []"
    and "length (in_range startDate endDate (filter (\<lambda>a. a_classId a = classId) (arrivals st)))
           < 2 ^ 43"
    and "(200 * length (late_entries (in_range startDate endDate
                 (filter (\<lambda>a. a_classId a = classId) (arrivals st)))))
           mod (2 * length (in_range startDate endDate
                 (filter (\<lambda>a. a_classId a = classId) (arrivals st))))
         \<noteq> length (in_range startDate endDate (filter (\<lambda>a. a_classId a = classId) (arrivals st)))"
  shows "map_of (getClassStats st classId startDate endDate) ''latenessRate''
         = Some (Num (round_half_away
              (100 * of_nat (length (late_entries (in_range startDate endDate
                      (filter (\<lambda>a. a_classId a = classId) (arrivals st)))))
               / of_nat (length (in_range startDate endDate
                      (filter (\<lambda>a. a_classId a = classId) (arrivals st)))))))"
proof -
  let ?F = "in_range startDate endDate (filter (\<lambda>a. a_classId a = classId) (arrivals st))"
  let ?L = "late_entries ?F"
  have eq: "filter (\<lambda>a. a_status a = ''late'') ?F = ?L"
    by (simp add: late_entries_def)
  have le: "length ?L \<le> length ?F"
    by (simp add: late_entries_def)
  from assms(1) have pos: "0 < length ?F" by simp
  have "0 \<le> (100 * of_nat (length ?L) / of_nat (length ?F) :: rat)" by simp
  with round_percent_exact [OF le pos assms(2) assms(3)] assms(1) show ?thesis
    by (simp add: getClassStats_def Let_def eq round_half_away_nonneg)
qed

text \<open>
  Claim C7, as amended. \<open>getClassStats\<close> reports no \<open>avgMinutesLate\<close> at all. On a
  ledger whose arrivals are classified as \<open>markArrival\<close> classifies them, with a total
  below \<open>2 ^ 52\<close> minutes, \<open>getStudentStats\<close> reports as \<open>avgMinutesLate\<close> the
  average of the minutes late over the late entries, a half rounded away from zero, and 0
  when there is no late entry. \<open>getClassStats\<close> reports the \<open>latenessRate\<close> 0 when
  there is no entry, and otherwise the percentage of late entries rounded to the nearest
  integer whenever that percentage is not half-way between two integers (for fewer than
  \<open>2 ^ 43\<close> entries); at a half-way percentage the rounding of the double-precision
  product decides.
\<close>

theorem stats_averages:
  "map_of (getClassStats st classId startDate endDate) ''avgMinutesLate'' = None
   \<and> (list_all classified (arrivals st)
       \<and> sum_list (map minutes_of (late_entries (in_range startDate endDate
              (filter (\<lambda>a. a_studentId a = studentId) (arrivals st))))) < 2 ^ 52 \<longrightarrow>
       map_of (getStudentStats st studentId startDate endDate) ''avgMinutesLate''
         = Some (Num (let late = late_entries (in_range startDate endDate
                                   (filter (\<lambda>a. a_studentId a = studentId) (arrivals st)))
                      in if late = [] then 0
                         else round_half_away (of_int (sum_list (map minutes_of late))
                                               / of_nat (length late)))))
   \<and> (let everyone = in_range startDate endDate
                         (filter (\<lambda>a. a_classId a = classId) (arrivals st));
            late = late_entries everyone
        in (everyone = [] \<longrightarrow>
              map_of (getClassStats st classId startDate endDate) ''latenessRate'' = Some (Num 0))
           \<and> (everyone \<noteq> [] \<and> length everyone < 2 ^ 43
               \<and> (200 * length late) mod (2 * length everyone) \<noteq> length everyone \<longrightarrow>
               map_of (getClassStats st classId startDate endDate) ''latenessRate''
                 = Some (Num (round_half_away
                      (100 * of_nat (length late) / of_nat (length everyone))))))"
proof (intro conjI impI)
  show "map_of (getClassStats st classId startDate endDate) ''avgMinutesLate'' = None"
    by (simp add: getClassStats_def Let_def)
next
  assume "list_all classified (arrivals st)
       \<and> sum_list (map minutes_of (late_entries (in_range startDate endDate
              (filter (\<lambda>a. a_studentId a = studentId) (arrivals st))))) < 2 ^ 52"
  then show "map_of (getStudentStats st studentId startDate endDate) ''avgMinutesLate''
         = Some (Num (let late = late_entries (in_range startDate endDate
                                   (filter (\<lambda>a. a_studentId a = studentId) (arrivals st)))
                      in if late = [] then 0
                         else round_half_away (of_int (sum_list (map minutes_of late))
                                               / of_nat (length late))))"
    using student_avg by blast
next
  show "let everyone = in_range startDate endDate
                         (filter (\<lambda>a. a_classId a = classId) (arrivals st));
            late = late_entries everyone
        in (everyone = [] \<longrightarrow>
              map_of (getClassStats st classId startDate endDate) ''latenessRate'' = Some (Num 0))
           \<and> (everyone \<noteq> [] \<and> length everyone < 2 ^ 43
               \<and> (200 * length late) mod (2 * length everyone) \<noteq> length everyone \<longrightarrow>
               map_of (getClassStats st classId startDate endDate) ''latenessRate''
                 = Some (Num (round_half_away
                      (100 * of_nat (length late) / of_nat (length everyone)))))"
    unfolding Let_def
  proof (intro conjI impI)
    assume "in_range startDate endDate (filter (\<lambda>a. a_classId a = classId) (arrivals st)) = []"
    then show "map_of (getClassStats st classId startDate endDate) ''latenessRate'' = Some (Num 0)"
      by (simp add: getClassStats_def Let_def)
  next
    assume "in_range startDate endDate (filter (\<lambda>a. a_classId a = classId) (arrivals st)) \<noteq> []
       \<and> length (in_range startDate endDate (filter (\<lambda>a. a_classId a = classId) (arrivals st)))
           < 2 ^ 43
       \<and> (200 * length (late_entries (in_range startDate endDate
                 (filter (\<lambda>a. a_classId a = classId) (arrivals st)))))
           mod (2 * length (in_range startDate endDate
                 (filter (\<lambda>a. a_classId a = classId) (arrivals st))))
         \<noteq> length (in_range startDate endDate (filter (\<lambda>a. a_classId a = classId) (arrivals st)))"
    then show "map_of (getClassStats st classId startDate endDate) ''latenessRate''
         = Some (Num (round_half_away
              (100 * of_nat (length (late_entries (in_range startDate endDate
                      (filter (\<lambda>a. a_classId a = classId) (arrivals st)))))
               / of_nat (length (in_range startDate endDate
                      (filter (\<lambda>a. a_classId a = classId) (arrivals st)))))))"
      using class_rate_exact by blast
  qed
qed

text \<open>
  One late arrival of 15 minutes in February: the average is 15 and the rate 100; a
  class without entries has rate 0.
\<close>

theorem stats_averages_witness:
  "list_all classified (arrivals app_feb29)
   \<and> map_of (getStudentStats app_feb29 ''stu_1'' (Some ''2024-02-01'') (Some ''2024-02-29''))
        ''avgMinutesLate'' = Some (Num 15)
   \<and> map_of (getClassStats app_feb29 ''cls_ltd4k2x9q1'' (Some ''2024-02-01'') (Some ''2024-02-29''))
        ''latenessRate'' = Some (Num 100)
   \<and> map_of (getClassStats app_feb29 ''nobody'' (Some ''2024-02-01'') (Some ''2024-02-29''))
        ''latenessRate'' = Some (Num 0)"
proof -
  let ?s = "in_range (Some ''2024-02-01'') (Some ''2024-02-29'')
              (filter (\<lambda>a. a_studentId a = ''stu_1'') (arrivals app_feb29))"
  let ?c = "in_range (Some ''2024-02-01'') (Some ''2024-02-29'')
              (filter (\<lambda>a. a_classId a = ''cls_ltd4k2x9q1'') (arrivals app_feb29))"
  let ?n = "in_range (Some ''2024-02-01'') (Some ''2024-02-29'')
              (filter (\<lambda>a. a_classId a = ''nobody'') (arrivals app_feb29))"
  have a: "list_all classified (arrivals app_feb29)"
    by code_simp
  have b: "late_entries ?s = [arrival_feb29]" "minutes_of arrival_feb29 = 15"
    by code_simp+
  have c: "?c = [arrival_feb29]" "late_entries ?c = [arrival_feb29]" "?n = []"
    by code_simp+
  have d: "round_half_away (15 / 1) = 15" "round_half_away (100 * 1 / 1) = 100"
    by code_simp+
  from stats_averages [where st = app_feb29 and studentId = "''stu_1''"
      and classId = "''cls_ltd4k2x9q1''" and startDate = "Some ''2024-02-01''"
      and endDate = "Some ''2024-02-29''"]
    stats_averages [where st = app_feb29 and studentId = "''stu_1''"
      and classId = "''nobody''" and startDate = "Some ''2024-02-01''"
      and endDate = "Some ''2024-02-29''"]
    a b c d
  show ?thesis by (simp add: Let_def)
qed

text \<open>
  Claim C7 as stated fails on the class with 23 late arrivals out of 40: its statistics
  have no \<open>avgMinutesLate\<close>, and the \<open>latenessRate\<close> is 57 where the percentage
  57.5 rounds to 58 (\<open>23 / 40 * 100\<close> is \<open>57.49999999999999\<close> in double precision).
\<close>

theorem stats_averages_counterexample:
  "map_of (getClassStats app_forty ''cls_ltd4k2x9q1'' None None) ''avgMinutesLate'' = None
   \<and> length (filter (\<lambda>a. a_classId a = ''cls_ltd4k2x9q1'') (arrivals app_forty)) = 40
   \<and> length (late_entries (filter (\<lambda>a. a_classId a = ''cls_ltd4k2x9q1'') (arrivals app_forty))) = 23
   \<and> map_of (getClassStats app_forty ''cls_ltd4k2x9q1'' None None) ''latenessRate'' = Some (Num 57)
   \<and> round_half_away (100 * 23 / 40) = 58"
  by code_simp

end
